theory Spec2Isabelle
  imports Main "HOL-Library.AList" "HOL-Library.Sublist"
begin

section \<open>Python values\<close>

text \<open>
  The registry (\<open>src/registry/registry.py\<close>) keeps its whole state in two Python
  dictionaries whose values come from JSON request bodies. The values are modelled by one
  datatype of JSON-shaped Python values. A \<open>dict\<close> is an association list in insertion
  order: assigning to a present key keeps its position, assigning to a new key appends.
  JSON numbers are the integers (floating point is not modelled). Dictionary keys are the
  hashable values. Strings are byte strings. The handlers
  \<open>register\<close>, \<open>update_agent_status\<close>, \<open>delete_agent\<close>, \<open>get_agent\<close>, \<open>lookup\<close> and
  \<open>search_agents\<close> and the two save functions are modelled as written; the start-up
  load and the handlers \<open>health\<close>, \<open>stats\<close>, \<open>list_agents\<close>, \<open>list_clients\<close> and
  \<open>dashboard\<close> are not part of the statements below and are left out.
\<close>

datatype pykey = KNone | KBool bool | KInt int | KStr string

datatype pyval =
    PNone
  | PBool bool
  | PInt int
  | PStr string
  | PList "pyval list"
  | PDict "(pykey \<times> pyval) list"

type_synonym pydict = "(pykey \<times> pyval) list"

datatype exn = KeyError | TypeError | AttributeError | IndexError

text \<open>Sequencing of steps that may raise: the first exception ends the computation.\<close>

definition bindE :: "exn + 'a \<Rightarrow> ('a \<Rightarrow> exn + 'b) \<Rightarrow> exn + 'b" where
  "bindE m f = (case m of Inl e \<Rightarrow> Inl e | Inr v \<Rightarrow> f v)"

text \<open>\<open>bool(x)\<close>.\<close>

fun py_truthy :: "pyval \<Rightarrow> bool" where
  "py_truthy PNone = False"
| "py_truthy (PBool b) = b"
| "py_truthy (PInt i) = (i \<noteq> 0)"
| "py_truthy (PStr s) = (s \<noteq> [])"
| "py_truthy (PList xs) = (xs \<noteq> [])"
| "py_truthy (PDict d) = (d \<noteq> [])"

text \<open>\<open>hash(x)\<close> as needed to use \<open>x\<close> as a dictionary key: lists and dicts are unhashable.\<close>

fun to_key :: "pyval \<Rightarrow> exn + pykey" where
  "to_key PNone = Inr KNone"
| "to_key (PBool b) = Inr (KBool b)"
| "to_key (PInt i) = Inr (KInt i)"
| "to_key (PStr s) = Inr (KStr s)"
| "to_key (PList xs) = Inl TypeError"
| "to_key (PDict d) = Inl TypeError"

fun key_val :: "pykey \<Rightarrow> pyval" where
  "key_val KNone = PNone"
| "key_val (KBool b) = PBool b"
| "key_val (KInt i) = PInt i"
| "key_val (KStr s) = PStr s"

subsection \<open>Operations on a \<open>dict\<close>\<close>

text \<open>A \<open>dict\<close> finds a key by \<open>==\<close>, and \<open>True == 1\<close>, \<open>False == 0\<close>: a Boolean and
  the integer it equals are one key. \<open>key_norm\<close> is the value a key is compared by.\<close>

fun key_norm :: "pykey \<Rightarrow> pykey" where
  "key_norm (KBool b) = KInt (if b then 1 else 0)"
| "key_norm k = k"

definition key_eq :: "pykey \<Rightarrow> pykey \<Rightarrow> bool" where
  "key_eq a b = (key_norm a = key_norm b)"

text \<open>The value stored under a key equal to \<open>k\<close>.\<close>

fun dict_find :: "pydict \<Rightarrow> pykey \<Rightarrow> pyval option" where
  "dict_find [] k = None"
| "dict_find ((k', v) # d) k = (if key_eq k' k then Some v else dict_find d k)"

text \<open>\<open>d[k] = v\<close>: a key already present keeps its position and the key object stored
  first; a new key is added at the end.\<close>

fun dict_set :: "pykey \<Rightarrow> pyval \<Rightarrow> pydict \<Rightarrow> pydict" where
  "dict_set k v [] = [(k, v)]"
| "dict_set k v ((k', v') # d) =
     (if key_eq k' k then (k', v) # d else (k', v') # dict_set k v d)"

text \<open>\<open>d.pop(k, None)\<close>, the result discarded.\<close>

definition dict_del :: "pykey \<Rightarrow> pydict \<Rightarrow> pydict" where
  "dict_del k d = filter (\<lambda>(k', v). \<not> key_eq k' k) d"

text \<open>\<open>k in d\<close>, \<open>d.get(k, dflt)\<close>, \<open>d[k]\<close> on a value known to be a \<open>dict\<close>.\<close>

definition dict_has :: "pydict \<Rightarrow> pykey \<Rightarrow> bool" where
  "dict_has d k = (dict_find d k \<noteq> None)"

definition dict_get :: "pydict \<Rightarrow> pykey \<Rightarrow> pyval \<Rightarrow> pyval" where
  "dict_get d k dflt = (case dict_find d k of None \<Rightarrow> dflt | Some v \<Rightarrow> v)"

definition dict_index :: "pydict \<Rightarrow> pykey \<Rightarrow> exn + pyval" where
  "dict_index d k = (case dict_find d k of None \<Rightarrow> Inl KeyError | Some v \<Rightarrow> Inr v)"

subsection \<open>The same operations on an arbitrary value\<close>

text \<open>\<open>x.get(k, dflt)\<close>: only a \<open>dict\<close> has the attribute \<open>get\<close>.\<close>

fun py_get :: "pyval \<Rightarrow> pykey \<Rightarrow> pyval \<Rightarrow> exn + pyval" where
  "py_get (PDict d) k dflt = Inr (dict_get d k dflt)"
| "py_get _ k dflt = Inl AttributeError"

text \<open>\<open>x[s]\<close> for a string \<open>s\<close>: a key lookup in a \<open>dict\<close>; a list or a string cannot be
  indexed by a string, the other values cannot be indexed at all.\<close>

fun py_index_str :: "pyval \<Rightarrow> string \<Rightarrow> exn + pyval" where
  "py_index_str (PDict d) s = dict_index d (KStr s)"
| "py_index_str _ s = Inl TypeError"

text \<open>\<open>s in x\<close> for a string \<open>s\<close>: key membership in a \<open>dict\<close>, element membership in a
  list, substring test in a string; the other values are not iterable.\<close>

fun py_str_in :: "string \<Rightarrow> pyval \<Rightarrow> exn + bool" where
  "py_str_in s (PDict d) = Inr (dict_has d (KStr s))"
| "py_str_in s (PList xs) = Inr (PStr s \<in> set xs)"
| "py_str_in s (PStr t) = Inr (sublist s t)"
| "py_str_in s _ = Inl TypeError"

text \<open>\<open>x[k] = v\<close>: an update of a \<open>dict\<close>; on a list, an integer or Boolean key is an
  index (negative indices count from the end, out of range raises); everything else
  raises \<open>TypeError\<close>.\<close>

fun py_setitem :: "pyval \<Rightarrow> pykey \<Rightarrow> pyval \<Rightarrow> exn + pyval" where
  "py_setitem (PDict d) k v = Inr (PDict (dict_set k v d))"
| "py_setitem (PList xs) k v =
     (case key_norm k of
        KInt i \<Rightarrow>
          (let n = int (length xs); j = (if i < 0 then n + i else i)
           in if 0 \<le> j \<and> j < n then Inr (PList (xs[nat j := v])) else Inl IndexError)
      | _ \<Rightarrow> Inl TypeError)"
| "py_setitem _ k v = Inl TypeError"

text \<open>\<open>x.pop(k, None)\<close>, the result discarded: removes the key from a \<open>dict\<close>;
  \<open>list.pop\<close> takes at most one argument; the other values have no \<open>pop\<close>.\<close>

fun py_pop :: "pyval \<Rightarrow> pykey \<Rightarrow> exn + pyval" where
  "py_pop (PDict d) k = Inr (PDict (dict_del k d))"
| "py_pop (PList xs) k = Inl TypeError"
| "py_pop _ k = Inl AttributeError"

section \<open>The state of the registry\<close>

text \<open>
  The module-level globals. \<open>registry\<close> maps an agent id to its URL and, under the key
  \<open>'agent_status'\<close>, holds the dictionary of the agents' status objects;
  \<open>client_registry\<close> maps a client name to its API URL and, under \<open>'agent_map'\<close>, holds
  the dictionary from client names to agent ids. The two MongoDB collections are lists of
  documents; \<open>None\<close> is Python's \<open>None\<close>. A document is an association list of its
  fields (the generated \<open>_id\<close> is left out).
\<close>

type_synonym doc = "(string \<times> pyval) list"

record state =
  registry :: pydict
  client_registry :: pydict
  TEST_MODE :: bool
  USE_MONGO :: bool
  agent_registry_col :: "doc list option"
  client_registry_col :: "doc list option"

abbreviation k_agent_status :: pykey where
  "k_agent_status \<equiv> KStr ''agent_status''"

abbreviation k_agent_map :: pykey where
  "k_agent_map \<equiv> KStr ''agent_map''"

text \<open>The state after the module is imported with no store: lines 48 and 49.\<close>

definition initial_state :: state where
  "initial_state =
     \<lparr>registry = [(k_agent_status, PDict [])],
      client_registry = [(k_agent_map, PDict [])],
      TEST_MODE = True, USE_MONGO = False,
      agent_registry_col = None, client_registry_col = None\<rparr>"

text \<open>A handler returns the value given to \<open>jsonify\<close> and the HTTP status (200 when the
  source gives none); an uncaught exception is \<open>Inl\<close>.\<close>

type_synonym response = "pyval \<times> nat"

section \<open>Read operations\<close>

text \<open>\<open>_build_agent_payload\<close>, lines 146 to 159.\<close>

definition build_agent_payload :: "state \<Rightarrow> pykey \<Rightarrow> exn + pyval" where
  "build_agent_payload st agent_id =
     (let agent_url = dict_get (registry st) agent_id PNone in
      bindE (py_get (dict_get (registry st) k_agent_status (PDict [])) agent_id (PDict []))
        (\<lambda>status_obj.
      bindE (py_get status_obj (KStr ''api_url'') PNone) (\<lambda>api_url.
      bindE (py_get status_obj (KStr ''alive'') (PBool False)) (\<lambda>alive.
      bindE (py_get status_obj (KStr ''assigned_to'') PNone) (\<lambda>assigned_to.
      bindE (py_get status_obj (KStr ''last_update'') PNone) (\<lambda>last_update.
      bindE (py_get status_obj (KStr ''capabilities'') (PList [])) (\<lambda>capabilities.
      bindE (py_get status_obj (KStr ''tags'') (PList [])) (\<lambda>tags.
      bindE (py_get status_obj (KStr ''description'') (PStr [])) (\<lambda>description.
      Inr (PDict
        [(KStr ''agent_id'', key_val agent_id),
         (KStr ''agent_url'', agent_url),
         (KStr ''api_url'', api_url),
         (KStr ''alive'', alive),
         (KStr ''assigned_to'', assigned_to),
         (KStr ''last_update'', last_update),
         (KStr ''capabilities'', capabilities),
         (KStr ''tags'', tags),
         (KStr ''description'', description)]))))))))))"

definition not_found :: response where
  "not_found = (PDict [(KStr ''error'', PStr ''Agent not found'')], 404)"

text \<open>\<open>get_agent\<close>, lines 195 to 199.\<close>

definition get_agent :: "state \<Rightarrow> string \<Rightarrow> exn + response" where
  "get_agent st agent_id =
     (if \<not> dict_has (registry st) (KStr agent_id) \<or> agent_id = ''agent_status''
      then Inr not_found
      else bindE (build_agent_payload st (KStr agent_id)) (\<lambda>payload. Inr (payload, 200)))"

text \<open>\<open>lookup\<close>, lines 284 to 311.\<close>

definition lookup :: "state \<Rightarrow> string \<Rightarrow> exn + response" where
  "lookup st ident =
     (if dict_has (registry st) (KStr ident) \<and> ident \<noteq> ''agent_status'' then
        bindE (dict_index (registry st) (KStr ident)) (\<lambda>agent_url.
        bindE (dict_index (registry st) k_agent_status) (\<lambda>status_map.
        bindE (py_get status_map (KStr ident) (PDict [])) (\<lambda>status_obj.
        bindE (py_get status_obj (KStr ''api_url'') PNone) (\<lambda>api_url.
        bindE (py_get status_obj (KStr ''description'') (PStr [])) (\<lambda>description.
        Inr (PDict
          [(KStr ''agent_id'', PStr ident),
           (KStr ''agent_url'', agent_url),
           (KStr ''api_url'', api_url),
           (KStr ''description'', description)], 200))))))
      else if dict_has (client_registry st) (KStr ident) then
        bindE (dict_index (client_registry st) k_agent_map) (\<lambda>agent_map.
        bindE (py_index_str agent_map ident) (\<lambda>agent_id.
        bindE (to_key agent_id) (\<lambda>agent_key.
        bindE (dict_index (registry st) agent_key) (\<lambda>agent_url.
        bindE (dict_index (client_registry st) (KStr ident)) (\<lambda>api_url.
        bindE (dict_index (registry st) k_agent_status) (\<lambda>status_map.
        bindE (py_get status_map agent_key (PDict [])) (\<lambda>status_obj.
        bindE (py_get status_obj (KStr ''description'') (PStr [])) (\<lambda>description.
        Inr (PDict
          [(KStr ''agent_id'', agent_id),
           (KStr ''agent_url'', agent_url),
           (KStr ''api_url'', api_url),
           (KStr ''description'', description)], 200)))))))))
      else Inr (PDict [(KStr ''error'',
                  PStr (''ID '' @ [CHR 0x27] @ ident @ [CHR 0x27] @ '' not found''))], 404))"

section \<open>Strings\<close>

text \<open>
  A string is the list of its UTF-8 bytes: equality, the substring test and the split at a
  comma give the same result on the bytes as on the code points. \<open>str.lower\<close> and
  \<open>str.strip\<close> belong to the Python library and follow the Unicode tables; they are the
  parameters \<open>str_lower\<close> and \<open>str_strip\<close> of the search, and what is proved of the search
  holds for every two functions in their place. On strings of ASCII characters they are
  \<open>lower_ascii\<close> (the letters A to Z change case) and \<open>strip_ascii\<close> (the characters 9
  to 13 and 28 to 32 are white space), which the examples use.
\<close>

definition ascii_lower :: "char \<Rightarrow> char" where
  "ascii_lower c =
     (let n = (of_char c :: nat) in if 65 \<le> n \<and> n \<le> 90 then char_of (n + 32) else c)"

definition lower_ascii :: "string \<Rightarrow> string" where
  "lower_ascii s = map ascii_lower s"

definition ascii_space :: "char \<Rightarrow> bool" where
  "ascii_space c = (let n = (of_char c :: nat) in (9 \<le> n \<and> n \<le> 13) \<or> (28 \<le> n \<and> n \<le> 32))"

definition strip_ascii :: "string \<Rightarrow> string" where
  "strip_ascii s = rev (dropWhile ascii_space (rev (dropWhile ascii_space s)))"

text \<open>\<open>s.split(sep)\<close> for a one-character separator.\<close>

fun split_on :: "char \<Rightarrow> string \<Rightarrow> string list" where
  "split_on sep [] = [[]]"
| "split_on sep (c # cs) =
     (if c = sep then [] # split_on sep cs
      else (case split_on sep cs of w # ws \<Rightarrow> (c # w) # ws | [] \<Rightarrow> [[c]]))"

text \<open>\<open>str(x)\<close> inside an f-string, for the values that can be dictionary keys.\<close>

fun nat_str :: "nat \<Rightarrow> string" where
  "nat_str n =
     (if n < 10 then [char_of (48 + n)] else nat_str (n div 10) @ [char_of (48 + n mod 10)])"

fun py_str :: "pyval \<Rightarrow> string" where
  "py_str PNone = ''None''"
| "py_str (PBool b) = (if b then ''True'' else ''False'')"
| "py_str (PInt i) = (if i < 0 then CHR ''-'' # nat_str (nat (- i)) else nat_str (nat i))"
| "py_str (PStr s) = s"
| "py_str _ = []"

section \<open>The search\<close>

text \<open>\<open>any(c in x for c in cs)\<close>: stops at the first member found.\<close>

fun any_in :: "string list \<Rightarrow> pyval \<Rightarrow> exn + bool" where
  "any_in [] x = Inr False"
| "any_in (c # cs) x = bindE (py_str_in c x) (\<lambda>b. if b then Inr True else any_in cs x)"

text \<open>\<open>x or []\<close>.\<close>

definition or_empty :: "pyval \<Rightarrow> pyval" where
  "or_empty x = (if py_truthy x then x else PList [])"

text \<open>\<open>agent_id.lower()\<close>: only a string has the method.\<close>

fun key_lower :: "(string \<Rightarrow> string) \<Rightarrow> pykey \<Rightarrow> exn + string" where
  "key_lower str_lower (KStr s) = Inr (str_lower s)"
| "key_lower str_lower _ = Inl AttributeError"

text \<open>The test of one filter on a payload, lines 180 to 183 and 185 to 188: \<open>True\<close> when
  the agent is to be skipped.\<close>

definition filter_rejects :: "string list \<Rightarrow> string \<Rightarrow> pyval \<Rightarrow> exn + bool" where
  "filter_rejects wanted field payload =
     (if wanted \<noteq> [] then
        bindE (py_get payload (KStr field) (PList [])) (\<lambda>v.
        bindE (any_in wanted (or_empty v)) (\<lambda>found. Inr (\<not> found)))
      else Inr False)"

text \<open>The loop of \<open>search_agents\<close>, lines 172 to 190, over the keys still to visit.\<close>

fun search_loop ::
  "(string \<Rightarrow> string) \<Rightarrow> state \<Rightarrow> string \<Rightarrow> string list \<Rightarrow> string list \<Rightarrow> pyval list \<Rightarrow> pykey list
     \<Rightarrow> exn + pyval list" where
  "search_loop str_lower st query capabilities_list tags_list results [] = Inr results"
| "search_loop str_lower st query capabilities_list tags_list results (agent_id # keys) =
     (if agent_id = k_agent_status
      then search_loop str_lower st query capabilities_list tags_list results keys
      else
        bindE (if query \<noteq> []
               then bindE (key_lower str_lower agent_id) (\<lambda>l. Inr (\<not> sublist query l))
               else Inr False) (\<lambda>skip_name.
        if skip_name then search_loop str_lower st query capabilities_list tags_list results keys
        else
          bindE (build_agent_payload st agent_id) (\<lambda>payload.
          bindE (filter_rejects capabilities_list ''capabilities'' payload) (\<lambda>skip_caps.
          if skip_caps then search_loop str_lower st query capabilities_list tags_list results keys
          else
            bindE (filter_rejects tags_list ''tags'' payload) (\<lambda>skip_tags.
            if skip_tags then search_loop str_lower st query capabilities_list tags_list results keys
            else search_loop str_lower st query capabilities_list tags_list
                   (results @ [payload]) keys)))))"

text \<open>The list of a comma-separated filter, lines 168 and 169.\<close>

definition filter_list :: "(string \<Rightarrow> string) \<Rightarrow> string option \<Rightarrow> string list" where
  "filter_list str_strip f =
     (case f of
        None \<Rightarrow> []
      | Some s \<Rightarrow> if s \<noteq> [] then map str_strip (split_on CHR '','' s) else [])"

text \<open>\<open>search_agents\<close>, lines 162 to 192; the three query parameters are absent or strings.\<close>

definition search_agents ::
  "(string \<Rightarrow> string) \<Rightarrow> (string \<Rightarrow> string) \<Rightarrow> state
     \<Rightarrow> string option \<Rightarrow> string option \<Rightarrow> string option \<Rightarrow> exn + response" where
  "search_agents str_lower str_strip st q capabilities_filter tags_filter =
     (let query = str_lower (str_strip (case q of None \<Rightarrow> [] | Some s \<Rightarrow> s));
          capabilities_list = filter_list str_strip capabilities_filter;
          tags_list = filter_list str_strip tags_filter
      in bindE (search_loop str_lower st query capabilities_list tags_list []
                  (map fst (registry st)))
           (\<lambda>results. Inr (PList results, 200)))"

section \<open>The store\<close>

text \<open>
  \<open>update_one({field: v}, {"$set": new_fields}, upsert=True)\<close> on a collection: the first
  document that matches gets the fields; when none matches, a document made of the filter
  and the fields is inserted. A filter value matches an equal field, an array field that
  holds it, and, when it is null, a missing field. Store calls succeed; the source catches
  whatever is raised between \<open>try\<close> and \<open>except\<close> and goes on.
\<close>

definition mongo_match :: "doc \<Rightarrow> string \<Rightarrow> pyval \<Rightarrow> bool" where
  "mongo_match d field v =
     (case map_of d field of
        None \<Rightarrow> v = PNone
      | Some (PList xs) \<Rightarrow> PList xs = v \<or> v \<in> set xs
      | Some w \<Rightarrow> w = v)"

definition set_fields :: "doc \<Rightarrow> doc \<Rightarrow> doc" where
  "set_fields new_fields d = fold (\<lambda>(k, v). AList.update k v) new_fields d"

fun update_one :: "string \<Rightarrow> pyval \<Rightarrow> doc \<Rightarrow> doc list \<Rightarrow> doc list" where
  "update_one field v new_fields [] = [set_fields new_fields [(field, v)]]"
| "update_one field v new_fields (d # ds) =
     (if mongo_match d field v then set_fields new_fields d # ds
      else d # update_one field v new_fields ds)"

text \<open>\<open>{"agent_id": agent_id, "agent_url": agent_url, **status}\<close>, lines 107 to 111: the
  status must be a mapping, and a document takes string keys only.\<close>

fun add_status_fields :: "pydict \<Rightarrow> doc \<Rightarrow> exn + doc" where
  "add_status_fields [] d = Inr d"
| "add_status_fields ((KStr s, v) # kvs) d = add_status_fields kvs (AList.update s v d)"
| "add_status_fields ((_, v) # kvs) d = Inl TypeError"

fun mongo_doc :: "pykey \<Rightarrow> pyval \<Rightarrow> pyval \<Rightarrow> exn + doc" where
  "mongo_doc agent_id agent_url (PDict status) =
     add_status_fields status [(''agent_id'', key_val agent_id), (''agent_url'', agent_url)]"
| "mongo_doc agent_id agent_url _ = Inl TypeError"

text \<open>The loop of \<open>save_registry\<close>, lines 103 to 116; an exception ends it with the
  documents written so far (lines 117 and 118).\<close>

fun save_registry_loop :: "pydict \<Rightarrow> pydict \<Rightarrow> doc list \<Rightarrow> doc list" where
  "save_registry_loop reg [] col = col"
| "save_registry_loop reg ((agent_id, agent_url) # items) col =
     (if agent_id = k_agent_status then save_registry_loop reg items col
      else
        (case bindE (py_get (dict_get reg k_agent_status (PDict [])) agent_id (PDict []))
                (mongo_doc agent_id agent_url) of
           Inl e \<Rightarrow> col
         | Inr d \<Rightarrow>
             save_registry_loop reg items (update_one ''agent_id'' (key_val agent_id) d col)))"

text \<open>\<open>save_registry\<close>, lines 99 to 118.\<close>

definition save_registry :: "state \<Rightarrow> state" where
  "save_registry st =
     (if TEST_MODE st \<or> \<not> USE_MONGO st then st
      else (case agent_registry_col st of
              None \<Rightarrow> st
            | Some col \<Rightarrow>
                st\<lparr>agent_registry_col :=
                     Some (save_registry_loop (registry st) (registry st) col)\<rparr>))"

text \<open>The loop of \<open>save_client_registry\<close>, lines 86 to 94.\<close>

fun save_client_loop :: "pydict \<Rightarrow> pydict \<Rightarrow> doc list \<Rightarrow> doc list" where
  "save_client_loop cr [] col = col"
| "save_client_loop cr ((client_name, api_url) # items) col =
     (if client_name = k_agent_map then save_client_loop cr items col
      else
        (case py_get (dict_get cr k_agent_map (PDict [])) client_name PNone of
           Inl e \<Rightarrow> col
         | Inr agent_id \<Rightarrow>
             save_client_loop cr items
               (update_one ''client_name'' (key_val client_name)
                  [(''api_url'', api_url), (''agent_id'', agent_id)] col)))"

text \<open>\<open>save_client_registry\<close>, lines 82 to 96.\<close>

definition save_client_registry :: "state \<Rightarrow> state" where
  "save_client_registry st =
     (if TEST_MODE st \<or> \<not> USE_MONGO st then st
      else (case client_registry_col st of
              None \<Rightarrow> st
            | Some col \<Rightarrow>
                st\<lparr>client_registry_col :=
                     Some (save_client_loop (client_registry st) (client_registry st) col)\<rparr>))"

section \<open>Mutations\<close>

text \<open>A mutating handler returns its outcome and the state it leaves: what was assigned
  before an exception stays assigned.\<close>

text \<open>The loop at lines 216 to 218 of \<open>delete_agent\<close>.\<close>

fun remove_clients :: "pykey list \<Rightarrow> pydict \<Rightarrow> exn option \<times> pydict" where
  "remove_clients [] cr = (None, cr)"
| "remove_clients (client_name # to_remove) cr =
     (let cr1 = dict_del client_name cr in
      case dict_find cr1 k_agent_map of
        None \<Rightarrow> remove_clients to_remove cr1
      | Some agent_map \<Rightarrow>
          (case py_pop agent_map client_name of
             Inl e \<Rightarrow> (Some e, cr1)
           | Inr agent_map' \<Rightarrow>
               remove_clients to_remove (dict_set k_agent_map agent_map' cr1)))"

text \<open>\<open>x.items()\<close>.\<close>

fun py_items :: "pyval \<Rightarrow> exn + pydict" where
  "py_items (PDict d) = Inr d"
| "py_items _ = Inl AttributeError"

text \<open>\<open>delete_agent\<close>, lines 202 to 223.\<close>

definition delete_agent :: "state \<Rightarrow> string \<Rightarrow> (exn + response) \<times> state" where
  "delete_agent st agent_id =
     (if \<not> dict_has (registry st) (KStr agent_id) \<or> agent_id = ''agent_status''
      then (Inr not_found, st)
      else
        let reg1 = dict_del (KStr agent_id) (registry st) in
        case (case dict_find reg1 k_agent_status of
                None \<Rightarrow> Inr reg1
              | Some status_map \<Rightarrow>
                  bindE (py_pop status_map (KStr agent_id)) (\<lambda>status_map'.
                  Inr (dict_set k_agent_status status_map' reg1))) of
          Inl e \<Rightarrow> (Inl e, st\<lparr>registry := reg1\<rparr>)
        | Inr reg2 \<Rightarrow>
            (case py_items (dict_get (client_registry st) k_agent_map (PDict [])) of
               Inl e \<Rightarrow> (Inl e, st\<lparr>registry := reg2\<rparr>)
             | Inr agent_map_items \<Rightarrow>
                 let to_remove =
                       map fst (filter (\<lambda>(client_name, mapped_agent).
                                  mapped_agent = PStr agent_id) agent_map_items)
                 in (case remove_clients to_remove (client_registry st) of
                       (Some e, cr) \<Rightarrow> (Inl e, st\<lparr>registry := reg2, client_registry := cr\<rparr>)
                     | (None, cr) \<Rightarrow>
                         (Inr (PDict [(KStr ''status'', PStr ''deleted''),
                                      (KStr ''agent_id'', PStr agent_id)], 200),
                          save_client_registry
                            (save_registry (st\<lparr>registry := reg2, client_registry := cr\<rparr>))))))"

text \<open>The assignments of lines 234 to 246 of \<open>update_agent_status\<close>, each a step on
  \<open>status_obj\<close>; \<open>run_steps\<close> returns the object as the last completed step left it.\<close>

definition set_field ::
  "pyval \<Rightarrow> string \<Rightarrow> (pyval \<Rightarrow> bool) \<Rightarrow> (pyval \<Rightarrow> pyval) \<Rightarrow> pyval \<Rightarrow> exn + pyval" where
  "set_field data field guard conv status_obj =
     bindE (py_str_in field data) (\<lambda>present.
     if present then
       bindE (py_index_str data field) (\<lambda>v.
       if guard v then py_setitem status_obj (KStr field) (conv v) else Inr status_obj)
     else Inr status_obj)"

fun is_list :: "pyval \<Rightarrow> bool" where
  "is_list (PList xs) = True"
| "is_list _ = False"

fun is_str :: "pyval \<Rightarrow> bool" where
  "is_str (PStr s) = True"
| "is_str _ = False"

fun is_dict :: "pyval \<Rightarrow> bool" where
  "is_dict (PDict d) = True"
| "is_dict _ = False"

definition merge_steps :: "pyval \<Rightarrow> string \<Rightarrow> (pyval \<Rightarrow> exn + pyval) list" where
  "merge_steps data now =
     [set_field data ''alive'' (\<lambda>v. True) (\<lambda>v. PBool (py_truthy v)),
      set_field data ''assigned_to'' (\<lambda>v. True) (\<lambda>v. v),
      (\<lambda>status_obj. py_setitem status_obj (KStr ''last_update'') (PStr now)),
      set_field data ''capabilities'' is_list (\<lambda>v. v),
      set_field data ''tags'' is_list (\<lambda>v. v),
      set_field data ''description'' is_str (\<lambda>v. v)]"

fun run_steps :: "(pyval \<Rightarrow> exn + pyval) list \<Rightarrow> pyval \<Rightarrow> exn option \<times> pyval" where
  "run_steps [] status_obj = (None, status_obj)"
| "run_steps (f # fs) status_obj =
     (case f status_obj of
        Inl e \<Rightarrow> (Some e, status_obj)
      | Inr status_obj' \<Rightarrow> run_steps fs status_obj')"

text \<open>When the agent has a status object, \<open>status_obj\<close> is that very object and every
  assignment to it is seen in the registry at once; otherwise it is a fresh \<open>{}\<close>.\<close>

definition write_through :: "state \<Rightarrow> pykey \<Rightarrow> pyval \<Rightarrow> state" where
  "write_through st agent_id status_obj =
     (case dict_find (registry st) k_agent_status of
        Some (PDict status_map) \<Rightarrow>
          if dict_has status_map agent_id
          then st\<lparr>registry := dict_set k_agent_status
                    (PDict (dict_set agent_id status_obj status_map)) (registry st)\<rparr>
          else st
      | _ \<Rightarrow> st)"

text \<open>\<open>update_agent_status\<close>, lines 226 to 251; \<open>request.json\<close> is \<open>data0\<close>, the clock
  reads \<open>now\<close>.\<close>

definition update_agent_status ::
  "state \<Rightarrow> string \<Rightarrow> pyval \<Rightarrow> string \<Rightarrow> (exn + response) \<times> state" where
  "update_agent_status st agent_id data0 now =
     (if \<not> dict_has (registry st) (KStr agent_id) \<or> agent_id = ''agent_status''
      then (Inr not_found, st)
      else
        let data = (if py_truthy data0 then data0 else PDict []) in
        case py_get (dict_get (registry st) k_agent_status (PDict []))
               (KStr agent_id) (PDict []) of
          Inl e \<Rightarrow> (Inl e, st)
        | Inr status_obj0 \<Rightarrow>
            (case run_steps (merge_steps data now) status_obj0 of
               (Some e, status_obj) \<Rightarrow> (Inl e, write_through st (KStr agent_id) status_obj)
             | (None, status_obj) \<Rightarrow>
                 (case bindE (dict_index (registry st) k_agent_status) (\<lambda>status_map.
                         py_setitem status_map (KStr agent_id) status_obj) of
                    Inl e \<Rightarrow> (Inl e, write_through st (KStr agent_id) status_obj)
                  | Inr status_map' \<Rightarrow>
                      let st' = save_registry
                            (st\<lparr>registry :=
                                  dict_set k_agent_status status_map' (registry st)\<rparr>)
                      in (case build_agent_payload st' (KStr agent_id) of
                            Inl e \<Rightarrow> (Inl e, st')
                          | Inr payload \<Rightarrow>
                              (Inr (PDict [(KStr ''status'', PStr ''updated''),
                                           (KStr ''agent'', payload)], 200), st')))))"

text \<open>The test of line 257 of \<open>register\<close>: \<open>True\<close> when the request is refused.\<close>

definition missing_fields :: "pyval \<Rightarrow> exn + bool" where
  "missing_fields data =
     (if \<not> py_truthy data then Inr True
      else bindE (py_str_in ''agent_id'' data) (\<lambda>has_id.
           if \<not> has_id then Inr True
           else bindE (py_str_in ''agent_url'' data) (\<lambda>has_url. Inr (\<not> has_url))))"

definition bad_request :: response where
  "bad_request = (PDict [(KStr ''error'', PStr ''Missing agent_id or agent_url'')], 400)"

text \<open>\<open>register\<close>, lines 254 to 281; \<open>request.json\<close> is \<open>data\<close>, the clock reads \<open>now\<close>.\<close>

definition register :: "state \<Rightarrow> pyval \<Rightarrow> string \<Rightarrow> (exn + response) \<times> state" where
  "register st data now =
     (case missing_fields data of
        Inl e \<Rightarrow> (Inl e, st)
      | Inr True \<Rightarrow> (Inr bad_request, st)
      | Inr False \<Rightarrow>
          (case bindE (py_index_str data ''agent_id'') (\<lambda>agent_id.
                bindE (py_index_str data ''agent_url'') (\<lambda>agent_url.
                bindE (py_get data (KStr ''api_url'') PNone) (\<lambda>api_url.
                bindE (py_get data (KStr ''description'') (PStr [])) (\<lambda>description.
                bindE (to_key agent_id) (\<lambda>agent_key.
                Inr (agent_id, agent_url, api_url, description, agent_key)))))) of
             Inl e \<Rightarrow> (Inl e, st)
           | Inr (agent_id, agent_url, api_url, description, agent_key) \<Rightarrow>
               let reg1 = dict_set agent_key agent_url (registry st);
                   reg2 = (if \<not> dict_has reg1 k_agent_status
                           then dict_set k_agent_status (PDict []) reg1 else reg1)
               in (case bindE (dict_index reg2 k_agent_status) (\<lambda>status_map.
                          py_setitem status_map agent_key
                            (PDict [(KStr ''alive'', PBool False),
                                    (KStr ''assigned_to'', PNone),
                                    (KStr ''api_url'', api_url),
                                    (KStr ''description'', description),
                                    (KStr ''last_update'', PStr now)])) of
                     Inl e \<Rightarrow> (Inl e, st\<lparr>registry := reg2\<rparr>)
                   | Inr status_map' \<Rightarrow>
                       (Inr (PDict [(KStr ''status'', PStr ''success''),
                                    (KStr ''message'',
                                     PStr (''Agent '' @ py_str agent_id @ '' registered''))],
                             200),
                        save_registry
                          (st\<lparr>registry := dict_set k_agent_status status_map' reg2\<rparr>)))))"

section \<open>Vocabulary of the statements\<close>

subsection \<open>Well-formed caches\<close>

text \<open>
  A cache is well formed when \<open>registry['agent_status']\<close> is a dictionary of dictionaries
  and \<open>client_registry['agent_map']\<close> is a dictionary, as after start-up. An agent is
  present when its id is a key of \<open>registry\<close> other than the reserved one. The status
  object of an agent, the status sub-map and the alias map are empty when missing or no
  dictionary.
\<close>

definition wf_cache :: "state \<Rightarrow> bool" where
  "wf_cache st =
     ((case map_of (registry st) k_agent_status of
         Some (PDict status_map) \<Rightarrow> (\<forall>v \<in> set (map snd status_map). is_dict v)
       | _ \<Rightarrow> False)
      \<and> (case map_of (client_registry st) k_agent_map of
           Some (PDict agent_map) \<Rightarrow> True
         | _ \<Rightarrow> False))"

definition agent_present :: "state \<Rightarrow> string \<Rightarrow> bool" where
  "agent_present st name = (dict_has (registry st) (KStr name) \<and> name \<noteq> ''agent_status'')"

definition status_obj_of :: "state \<Rightarrow> pykey \<Rightarrow> pydict" where
  "status_obj_of st k =
     (case map_of (registry st) k_agent_status of
        Some (PDict status_map) \<Rightarrow>
          (case dict_find status_map k of Some (PDict status_obj) \<Rightarrow> status_obj | _ \<Rightarrow> [])
      | _ \<Rightarrow> [])"

definition status_map_of :: "state \<Rightarrow> pydict" where
  "status_map_of st =
     (case map_of (registry st) k_agent_status of Some (PDict status_map) \<Rightarrow> status_map | _ \<Rightarrow> [])"

definition agent_map_in :: "pydict \<Rightarrow> pydict" where
  "agent_map_in cr =
     (case map_of cr k_agent_map of Some (PDict agent_map) \<Rightarrow> agent_map | _ \<Rightarrow> [])"

definition agent_map_of :: "state \<Rightarrow> pydict" where
  "agent_map_of st = agent_map_in (client_registry st)"

definition alias_target :: "state \<Rightarrow> string \<Rightarrow> pyval option" where
  "alias_target st name =
     (case map_of (client_registry st) k_agent_map of
        Some (PDict agent_map) \<Rightarrow> map_of agent_map (KStr name)
      | _ \<Rightarrow> None)"

text \<open>The keys of a returned view, and the reading of one of its fields.\<close>

definition dict_keys :: "pyval \<Rightarrow> pykey list" where
  "dict_keys v = (case v of PDict d \<Rightarrow> map fst d | _ \<Rightarrow> [])"

definition view_field :: "exn + response \<Rightarrow> string \<Rightarrow> pyval option" where
  "view_field r field =
     (case r of Inr (PDict view, code) \<Rightarrow> map_of view (KStr field) | _ \<Rightarrow> None)"

subsection \<open>Status objects\<close>

text \<open>
  The partial merge that \<open>update_agent_status\<close> is to perform on a status object, field by
  field, and the status object that \<open>register\<close> stores for the request object \<open>d\<close> (lines
  270 to 276).
\<close>

definition put_if ::
  "pydict \<Rightarrow> string \<Rightarrow> (pyval \<Rightarrow> bool) \<Rightarrow> (pyval \<Rightarrow> pyval) \<Rightarrow> pydict \<Rightarrow> pydict" where
  "put_if d field guard conv status =
     (case map_of d (KStr field) of
        Some v \<Rightarrow> if guard v then AList.update (KStr field) (conv v) status else status
      | None \<Rightarrow> status)"

definition partial_merge :: "pydict \<Rightarrow> string \<Rightarrow> pydict \<Rightarrow> pydict" where
  "partial_merge d now status =
     put_if d ''description'' is_str (\<lambda>v. v)
       (put_if d ''tags'' is_list (\<lambda>v. v)
          (put_if d ''capabilities'' is_list (\<lambda>v. v)
             (AList.update (KStr ''last_update'') (PStr now)
                (put_if d ''assigned_to'' (\<lambda>v. True) (\<lambda>v. v)
                   (put_if d ''alive'' (\<lambda>v. True) (\<lambda>v. PBool (py_truthy v)) status)))))"

definition fresh_status :: "pydict \<Rightarrow> string \<Rightarrow> pydict" where
  "fresh_status d now =
     [(KStr ''alive'', PBool False),
      (KStr ''assigned_to'', PNone),
      (KStr ''api_url'', dict_get d (KStr ''api_url'') PNone),
      (KStr ''description'', dict_get d (KStr ''description'') (PStr [])),
      (KStr ''last_update'', PStr now)]"

subsection \<open>The predicates of the search\<close>

text \<open>
  The agents of a cache are the keys of \<open>registry\<close> other than the reserved one, in
  insertion order. \<open>agents_ok\<close>: every agent id is a string and the \<open>capabilities\<close> and
  \<open>tags\<close> of every agent, when present, are lists, which is what \<open>update_agent_status\<close>
  stores. \<open>query_matches\<close>: the query, with the white space around it removed and in
  lower case, is empty or a substring of the agent id in lower case. \<open>filter_matches\<close>:
  the filter is absent or empty, or one of its comma-separated values, with the white
  space around it removed, is in the list. \<open>keeps\<close> is the test of the loop on the parsed
  parameters.
\<close>

definition agent_keys :: "state \<Rightarrow> pykey list" where
  "agent_keys st = filter (\<lambda>k. k \<noteq> k_agent_status) (map fst (registry st))"

definition list_field :: "state \<Rightarrow> pykey \<Rightarrow> string \<Rightarrow> pyval list" where
  "list_field st k field =
     (case dict_get (status_obj_of st k) (KStr field) (PList []) of
        PList xs \<Rightarrow> xs
      | _ \<Rightarrow> [])"

fun is_str_key :: "pykey \<Rightarrow> bool" where
  "is_str_key (KStr s) = True"
| "is_str_key _ = False"

definition agents_ok :: "state \<Rightarrow> bool" where
  "agents_ok st =
     (\<forall>k \<in> set (agent_keys st).
        is_str_key k
        \<and> is_list (dict_get (status_obj_of st k) (KStr ''capabilities'') (PList []))
        \<and> is_list (dict_get (status_obj_of st k) (KStr ''tags'') (PList [])))"

definition agent_view :: "state \<Rightarrow> pykey \<Rightarrow> pyval" where
  "agent_view st k = (case build_agent_payload st k of Inr payload \<Rightarrow> payload | Inl e \<Rightarrow> PNone)"

definition query_matches ::
  "(string \<Rightarrow> string) \<Rightarrow> (string \<Rightarrow> string) \<Rightarrow> string option \<Rightarrow> pykey \<Rightarrow> bool" where
  "query_matches str_lower str_strip q k =
     (let query = str_lower (str_strip (case q of None \<Rightarrow> [] | Some s \<Rightarrow> s))
      in query = []
         \<or> (case k of KStr agent_id \<Rightarrow> sublist query (str_lower agent_id) | _ \<Rightarrow> False))"

definition filter_matches :: "(string \<Rightarrow> string) \<Rightarrow> string option \<Rightarrow> pyval list \<Rightarrow> bool" where
  "filter_matches str_strip f xs =
     (case f of
        None \<Rightarrow> True
      | Some s \<Rightarrow>
          s = [] \<or> set (map (\<lambda>c. PStr (str_strip c)) (split_on CHR '','' s)) \<inter> set xs \<noteq> {})"

definition keeps ::
  "(string \<Rightarrow> string) \<Rightarrow> state \<Rightarrow> string \<Rightarrow> string list \<Rightarrow> string list \<Rightarrow> pykey \<Rightarrow> bool" where
  "keeps str_lower st query caps tags k =
     ((query = [] \<or> (case k of KStr s \<Rightarrow> sublist query (str_lower s) | _ \<Rightarrow> False))
      \<and> (caps = [] \<or> (\<exists>c \<in> set caps. PStr c \<in> set (list_field st k ''capabilities'')))
      \<and> (tags = [] \<or> (\<exists>c \<in> set tags. PStr c \<in> set (list_field st k ''tags''))))"

subsection \<open>Example states\<close>

text \<open>
  \<open>alias_state\<close>: the agent \<open>A1\<close> as \<open>register\<close> leaves it, and the alias \<open>C1\<close> to it.
  \<open>dangling_state\<close>: the cache after a start-up from a store that holds the alias \<open>c1\<close>
  to an agent \<open>a1\<close> and no agent. \<open>cascade_state\<close>: a second alias, to another agent.
  \<open>merge_state\<close>: \<open>A1\<close> with capabilities and tags. \<open>store_state\<close>: the store is available
  and its two collections hold what the save functions write for the cache of
  \<open>cascade_state\<close>. \<open>search_state\<close>: three agents with capabilities and tags.
\<close>

definition alias_state :: state where
  "alias_state = initial_state
     \<lparr>registry :=
        [(k_agent_status,
          PDict [(KStr ''A1'', PDict [(KStr ''alive'', PBool False),
                                      (KStr ''assigned_to'', PNone),
                                      (KStr ''api_url'', PStr ''W''),
                                      (KStr ''description'', PStr ''planner''),
                                      (KStr ''last_update'', PStr ''t0'')])]),
         (KStr ''A1'', PStr ''U'')],
      client_registry :=
        [(k_agent_map, PDict [(KStr ''C1'', PStr ''A1'')]), (KStr ''C1'', PStr ''V'')]\<rparr>"

definition dangling_state :: state where
  "dangling_state =
     \<lparr>registry = [(k_agent_status, PDict [])],
      client_registry =
        [(k_agent_map, PDict [(KStr ''c1'', PStr ''a1'')]), (KStr ''c1'', PStr ''http://v'')],
      TEST_MODE = False, USE_MONGO = True,
      agent_registry_col = Some [],
      client_registry_col =
        Some [[(''client_name'', PStr ''c1''), (''api_url'', PStr ''http://v''),
               (''agent_id'', PStr ''a1'')]]\<rparr>"

definition cascade_state :: state where
  "cascade_state = alias_state
     \<lparr>client_registry :=
        [(k_agent_map, PDict [(KStr ''C1'', PStr ''A1''), (KStr ''C2'', PStr ''B7'')]),
         (KStr ''C1'', PStr ''V''), (KStr ''C2'', PStr ''X'')]\<rparr>"

definition merge_state :: state where
  "merge_state = initial_state
     \<lparr>registry :=
        [(k_agent_status,
          PDict [(KStr ''A1'', PDict [(KStr ''alive'', PBool False),
                                      (KStr ''assigned_to'', PNone),
                                      (KStr ''api_url'', PStr ''W''),
                                      (KStr ''description'', PStr ''planner''),
                                      (KStr ''last_update'', PStr ''t0''),
                                      (KStr ''capabilities'', PList [PStr ''route'']),
                                      (KStr ''tags'', PList [PStr ''transit''])])]),
         (KStr ''A1'', PStr ''U'')]\<rparr>"

definition store_state :: state where
  "store_state = cascade_state
     \<lparr>TEST_MODE := False, USE_MONGO := True,
      agent_registry_col :=
        Some [[(''agent_id'', PStr ''A1''), (''agent_url'', PStr ''U''),
               (''alive'', PBool False), (''assigned_to'', PNone),
               (''api_url'', PStr ''W''), (''description'', PStr ''planner''),
               (''last_update'', PStr ''t0'')]],
      client_registry_col :=
        Some [[(''client_name'', PStr ''C1''), (''api_url'', PStr ''V''),
               (''agent_id'', PStr ''A1'')],
              [(''client_name'', PStr ''C2''), (''api_url'', PStr ''X''),
               (''agent_id'', PStr ''B7'')]]\<rparr>"

definition search_state :: state where
  "search_state = initial_state
     \<lparr>registry :=
        [(k_agent_status,
          PDict [(KStr ''alpha'', PDict [(KStr ''capabilities'', PList [PStr ''x'']),
                                         (KStr ''tags'', PList [PStr ''z''])]),
                 (KStr ''beta'', PDict [(KStr ''capabilities'', PList [PStr ''y'']),
                                        (KStr ''tags'', PList [PStr ''w''])]),
                 (KStr ''Gamma'', PDict [(KStr ''capabilities'', PList [PStr ''q'']),
                                         (KStr ''tags'', PList [PStr ''z''])])]),
         (KStr ''alpha'', PStr ''http://a''),
         (KStr ''beta'', PStr ''http://b''),
         (KStr ''Gamma'', PStr ''http://c'')]\<rparr>"

section \<open>Basic facts\<close>

lemma key_eq_refl [simp]: "key_eq k k"
  by (simp add: key_eq_def)

lemma key_eq_sym: "key_eq a b \<longleftrightarrow> key_eq b a"
  by (auto simp: key_eq_def)

lemma key_eq_trans: "key_eq a b \<Longrightarrow> key_eq b c \<Longrightarrow> key_eq a c"
  by (simp add: key_eq_def)

lemma key_eq_KStr [simp]:
  "key_eq k (KStr s) \<longleftrightarrow> k = KStr s"
  "key_eq (KStr s) k \<longleftrightarrow> k = KStr s"
  by (cases k; auto simp: key_eq_def)+

lemma key_eq_imp_eq: "a = b \<Longrightarrow> key_eq a b"
  by simp

lemma dict_find_KStr [simp]: "dict_find d (KStr s) = map_of d (KStr s)"
  by (induction d) auto

lemma dict_set_KStr [simp]: "dict_set (KStr s) v d = AList.update (KStr s) v d"
  by (induction d) auto

lemma dict_del_KStr [simp]: "dict_del (KStr s) d = AList.delete (KStr s) d"
  by (induction d) (auto simp: dict_del_def)

lemma dict_find_cong: "key_eq a b \<Longrightarrow> dict_find d a = dict_find d b"
  by (induction d) (auto simp: key_eq_def)

lemma dict_find_SomeD: "dict_find d k = Some v \<Longrightarrow> \<exists>k'. (k', v) \<in> set d \<and> key_eq k' k"
  by (induction d) (auto split: if_splits)

lemma dict_find_None_iff: "dict_find d k = None \<longleftrightarrow> (\<forall>k' \<in> fst ` set d. \<not> key_eq k' k)"
  by (induction d) (auto split: if_splits)

lemma dict_find_del:
  "dict_find (dict_del k d) k' = (if key_eq k k' then None else dict_find d k')"
  by (induction d) (auto simp: dict_del_def key_eq_def)

lemma dict_find_set:
  "dict_find (dict_set k v d) k' = (if key_eq k k' then Some v else dict_find d k')"
  by (induction d) (auto simp: key_eq_def)

lemma set_dict_del: "set (dict_del k d) = {p \<in> set d. \<not> key_eq (fst p) k}"
  by (auto simp: dict_del_def)

lemma dict_has_map_of: "dict_has d (KStr s) \<longleftrightarrow> map_of d (KStr s) \<noteq> None"
  by (simp add: dict_has_def)

lemma dict_has_KStr: "dict_has d (KStr s) \<longleftrightarrow> KStr s \<in> set (map fst d)"
  by (simp add: dict_has_def map_of_eq_None_iff)

lemma dict_has_iff: "dict_has d k \<longleftrightarrow> (\<exists>k' \<in> fst ` set d. key_eq k' k)"
  by (simp add: dict_has_def dict_find_None_iff)

lemma dict_has_del: "dict_has (dict_del k d) k' \<longleftrightarrow> dict_has d k' \<and> \<not> key_eq k k'"
  by (auto simp: dict_has_def dict_find_del)

lemma dict_has_set: "dict_has (dict_set k v d) k' \<longleftrightarrow> dict_has d k' \<or> key_eq k k'"
  by (auto simp: dict_has_def dict_find_set)

lemma map_of_dict_del:
  "map_of (dict_del k d) (KStr s) = (if k = KStr s then None else map_of d (KStr s))"
  using dict_find_del[of k d "KStr s"] by simp

lemma map_of_dict_set:
  "map_of (dict_set k v d) (KStr s) = (if k = KStr s then Some v else map_of d (KStr s))"
  using dict_find_set[of k v d "KStr s"] by simp

lemma dict_has_not_key: "\<not> dict_has d k \<Longrightarrow> k \<notin> fst ` set d"
  using dict_has_iff[of d k] by auto

lemma wf_cacheD:
  assumes "wf_cache st"
  shows "\<exists>sm am. map_of (registry st) k_agent_status = Some (PDict sm)
    \<and> (\<forall>k v. dict_find sm k = Some v \<longrightarrow> is_dict v)
    \<and> map_of (client_registry st) k_agent_map = Some (PDict am)"
proof -
  from assms obtain sm where sm: "map_of (registry st) k_agent_status = Some (PDict sm)"
    and all: "\<forall>v \<in> set (map snd sm). is_dict v"
    by (auto simp: wf_cache_def split: option.splits pyval.splits)
  from assms obtain am where am: "map_of (client_registry st) k_agent_map = Some (PDict am)"
    by (auto simp: wf_cache_def split: option.splits pyval.splits)
  have "is_dict v" if "dict_find sm k = Some v" for k v
    using dict_find_SomeD[OF that] all by force
  with sm am show ?thesis by blast
qed

lemma status_lookup:
  assumes "wf_cache st"
  shows "\<exists>sm. map_of (registry st) k_agent_status = Some (PDict sm)
      \<and> py_get (PDict sm) k dflt = Inr (dict_get sm k dflt)
      \<and> dict_get sm k (PDict []) = PDict (status_obj_of st k)"
proof -
  from wf_cacheD[OF assms] obtain sm
    where sm: "map_of (registry st) k_agent_status = Some (PDict sm)"
    and d: "\<forall>k v. dict_find sm k = Some v \<longrightarrow> is_dict v"
    by blast
  have "dict_get sm k (PDict []) = PDict (status_obj_of st k)"
  proof (cases "dict_find sm k")
    case None
    then show ?thesis by (simp add: dict_get_def status_obj_of_def sm)
  next
    case (Some v)
    with d have "is_dict v" by blast
    with Some show ?thesis
      by (cases v) (simp_all add: dict_get_def status_obj_of_def sm)
  qed
  with sm show ?thesis by simp
qed

lemma lookup_agent_branch:
  assumes wf: "wf_cache st" and p: "agent_present st name"
  shows "lookup st name =
      Inr (PDict [(KStr ''agent_id'', PStr name),
                  (KStr ''agent_url'', dict_get (registry st) (KStr name) PNone),
                  (KStr ''api_url'', dict_get (status_obj_of st (KStr name)) (KStr ''api_url'') PNone),
                  (KStr ''description'',
                   dict_get (status_obj_of st (KStr name)) (KStr ''description'') (PStr []))], 200)"
proof -
  from status_lookup[OF wf, of "KStr name" "PDict []"] obtain sm
    where sm: "map_of (registry st) k_agent_status = Some (PDict sm)"
      and g: "dict_get sm (KStr name) (PDict []) = PDict (status_obj_of st (KStr name))"
    by blast
  from p obtain u where u: "map_of (registry st) (KStr name) = Some u"
    by (auto simp: agent_present_def dict_has_map_of)
  from p u sm g show ?thesis
    by (simp add: lookup_def agent_present_def bindE_def dict_index_def dict_get_def)
qed

lemma lookup_alias_branch:
  assumes wf: "wf_cache st" and np: "\<not> agent_present st name"
    and c: "dict_has (client_registry st) (KStr name)"
    and t: "alias_target st name = Some (PStr aid)"
    and p: "agent_present st aid"
  shows "lookup st name =
      Inr (PDict [(KStr ''agent_id'', PStr aid),
                  (KStr ''agent_url'', dict_get (registry st) (KStr aid) PNone),
                  (KStr ''api_url'', dict_get (client_registry st) (KStr name) PNone),
                  (KStr ''description'',
                   dict_get (status_obj_of st (KStr aid)) (KStr ''description'') (PStr []))], 200)"
proof -
  from status_lookup[OF wf, of "KStr aid" "PDict []"] obtain sm
    where sm: "map_of (registry st) k_agent_status = Some (PDict sm)"
      and g: "dict_get sm (KStr aid) (PDict []) = PDict (status_obj_of st (KStr aid))"
    by blast
  from wf_cacheD[OF wf] obtain am
    where am: "map_of (client_registry st) k_agent_map = Some (PDict am)" by blast
  with t have tm: "map_of am (KStr name) = Some (PStr aid)"
    by (simp add: alias_target_def)
  from p obtain u where u: "map_of (registry st) (KStr aid) = Some u"
    by (auto simp: agent_present_def dict_has_map_of)
  from c obtain v where v: "map_of (client_registry st) (KStr name) = Some v"
    by (auto simp: dict_has_map_of)
  from np have nb: "(dict_has (registry st) (KStr name) \<and> name \<noteq> ''agent_status'') = False"
    by (simp add: agent_present_def)
  from c sm g am tm u v show ?thesis
    unfolding lookup_def nb by (simp add: bindE_def dict_index_def dict_get_def)
qed

lemma lookup_not_found:
  assumes "\<not> agent_present st name" and "\<not> dict_has (client_registry st) (KStr name)"
  shows "\<exists>body. lookup st name = Inr (body, 404)"
proof -
  from assms(1)
  have nb: "(dict_has (registry st) (KStr name) \<and> name \<noteq> ''agent_status'') = False"
    by (simp add: agent_present_def)
  from assms(2) show ?thesis unfolding lookup_def nb by simp
qed

lemma registry_save_registry [simp]: "registry (save_registry st) = registry st"
  by (simp add: save_registry_def split: option.splits)

lemma client_registry_save_registry [simp]:
  "client_registry (save_registry st) = client_registry st"
  by (simp add: save_registry_def split: option.splits)

lemma registry_save_client_registry [simp]: "registry (save_client_registry st) = registry st"
  by (simp add: save_client_registry_def split: option.splits)

lemma client_registry_save_client_registry [simp]:
  "client_registry (save_client_registry st) = client_registry st"
  by (simp add: save_client_registry_def split: option.splits)

lemma set_delete: "set (AList.delete k al) = {p \<in> set al. fst p \<noteq> k}"
  by (auto simp: AList.delete_eq)

lemma bool_key_examples:
  "dict_find [(KInt 1, PStr ''a'')] (KBool True) = Some (PStr ''a'')"
  "dict_set (KBool True) (PStr ''b'') [(KInt 1, PStr ''a'')] = [(KInt 1, PStr ''b'')]"
  "dict_set (KInt 1) (PStr ''b'') [(KBool True, PStr ''a'')] = [(KBool True, PStr ''b'')]"
  "dict_del (KInt 0) [(KBool False, PStr ''a'')] = []"
  by (simp_all add: key_eq_def dict_del_def)

lemma dict_has_delete:
  "dict_has (AList.delete (KStr s) al) k' \<longleftrightarrow> dict_has al k' \<and> k' \<noteq> KStr s"
  using dict_has_del[of "KStr s" al k'] by simp

lemma dict_has_update:
  "dict_has (AList.update (KStr s) v al) k' \<longleftrightarrow> dict_has al k' \<or> k' = KStr s"
  using dict_has_set[of "KStr s" v al k'] by simp

lemma remove_clients_agent_map:
  "remove_clients names cr = (None, cr') \<Longrightarrow>
     set (agent_map_in cr') \<subseteq> {p \<in> set (agent_map_in cr). fst p \<notin> set names}"
proof (induction names arbitrary: cr)
  case Nil
  then show ?case by auto
next
  case (Cons n names)
  let ?cr1 = "dict_del n cr"
  show ?case
  proof (cases "map_of ?cr1 k_agent_map")
    case None
    with Cons.prems have "remove_clients names ?cr1 = (None, cr')" by simp
    from Cons.IH[OF this] have "set (agent_map_in cr') \<subseteq> set (agent_map_in ?cr1)"
      by blast
    moreover from None have "agent_map_in ?cr1 = []" by (simp add: agent_map_in_def)
    ultimately show ?thesis by simp
  next
    case (Some amv)
    with Cons.prems obtain d where amv: "amv = PDict d"
      and r: "remove_clients names
                (AList.update k_agent_map (PDict (dict_del n d)) ?cr1) = (None, cr')"
      by (cases amv) (auto split: sum.splits)
    from Some amv have "map_of cr k_agent_map = Some (PDict d)"
      by (auto simp: map_of_dict_del split: if_splits)
    then have a: "agent_map_in cr = d" by (simp add: agent_map_in_def)
    have b: "agent_map_in (AList.update k_agent_map (PDict (dict_del n d)) ?cr1)
               = dict_del n d"
      by (simp add: agent_map_in_def AList.update_conv')
    from Cons.IH[OF r] show ?thesis unfolding a b by (auto simp: set_dict_del)
  qed
qed

lemma remove_clients_subset:
  "remove_clients names cr = (e, cr') \<Longrightarrow> dict_has cr' k \<Longrightarrow> dict_has cr k"
proof (induction names arbitrary: cr)
  case Nil
  then show ?case by simp
next
  case (Cons n names)
  let ?cr1 = "dict_del n cr"
  show ?case
  proof (cases "map_of ?cr1 k_agent_map")
    case None
    with Cons.prems have "remove_clients names ?cr1 = (e, cr')" by simp
    from Cons.IH[OF this Cons.prems(2)] show ?thesis by (simp add: dict_has_del)
  next
    case (Some amv)
    then have h: "dict_has ?cr1 k_agent_map" by (simp add: dict_has_map_of)
    show ?thesis
    proof (cases "py_pop amv n")
      case (Inl x)
      with Some Cons.prems show ?thesis by (auto simp: dict_has_del)
    next
      case (Inr am')
      with Some Cons.prems
      have "remove_clients names (AList.update k_agent_map am' ?cr1) = (e, cr')" by simp
      from Cons.IH[OF this Cons.prems(2)] h show ?thesis
        by (auto simp: dict_has_update dict_has_del)
    qed
  qed
qed

lemma remove_clients_keys:
  "remove_clients names cr = (None, cr') \<Longrightarrow> n \<in> set names \<Longrightarrow> \<not> dict_has cr' n"
proof (induction names arbitrary: cr)
  case Nil
  then show ?case by simp
next
  case (Cons m names)
  let ?cr1 = "dict_del m cr"
  obtain cr2 where r: "remove_clients names cr2 = (None, cr')"
    and c: "cr2 = ?cr1 \<or>
            (\<exists>am'. cr2 = AList.update k_agent_map am' ?cr1 \<and> map_of ?cr1 k_agent_map \<noteq> None)"
  proof (cases "map_of ?cr1 k_agent_map")
    case None
    with Cons.prems that show ?thesis by simp
  next
    case (Some amv)
    with Cons.prems that show ?thesis by (cases "py_pop amv m") auto
  qed
  show ?case
  proof (cases "n = m")
    case True
    have "\<not> dict_has cr2 m"
      using c by (auto simp: dict_has_update dict_has_del map_of_dict_del)
    with remove_clients_subset[OF r] True show ?thesis by blast
  next
    case False
    with Cons.prems have "n \<in> set names" by simp
    from Cons.IH[OF r this] show ?thesis .
  qed
qed

lemma remove_clients_total:
  "map_of cr k_agent_map = None \<or> (\<exists>d. map_of cr k_agent_map = Some (PDict d)) \<Longrightarrow>
     \<exists>cr'. remove_clients names cr = (None, cr')"
proof (induction names arbitrary: cr)
  case Nil
  then show ?case by simp
next
  case (Cons n names)
  let ?cr1 = "dict_del n cr"
  show ?case
  proof (cases "map_of ?cr1 k_agent_map")
    case None
    with Cons.IH[of ?cr1] show ?thesis by simp
  next
    case (Some amv)
    with Cons.prems obtain d where d: "amv = PDict d"
      by (auto simp: map_of_dict_del split: if_splits)
    have "\<exists>cr'. remove_clients names
             (AList.update k_agent_map (PDict (dict_del n d)) ?cr1) = (None, cr')"
      by (rule Cons.IH) (simp add: AList.update_conv')
    with Some d show ?thesis by simp
  qed
qed

lemma set_field_dict:
  "set_field (PDict d) field guard conv (PDict status)
     = Inr (PDict (put_if d field guard conv status))"
  by (cases "map_of d (KStr field)")
     (simp_all add: set_field_def put_if_def bindE_def dict_has_map_of dict_index_def)

lemma run_merge_steps:
  "run_steps (merge_steps (PDict d) now) (PDict status)
     = (None, PDict (partial_merge d now status))"
  by (simp add: merge_steps_def partial_merge_def set_field_dict)

lemma map_of_put_if:
  "map_of (put_if d field guard conv status) f =
     (case map_of d (KStr field) of
        Some v \<Rightarrow> if f = KStr field \<and> guard v then Some (conv v) else map_of status f
      | None \<Rightarrow> map_of status f)"
  by (simp add: put_if_def AList.update_conv' split: option.splits)

lemma map_of_put_if_absent:
  "\<not> dict_has d f \<Longrightarrow> map_of (put_if d field guard conv status) f = map_of status f"
  by (cases "map_of d (KStr field)") (auto simp: map_of_put_if dict_has_map_of)

lemma map_of_put_if_other:
  "f \<noteq> KStr field \<Longrightarrow> map_of (put_if d field guard conv status) f = map_of status f"
  by (cases "map_of d (KStr field)") (simp_all add: map_of_put_if)

lemma map_of_partial_merge_absent:
  assumes "f \<noteq> KStr ''last_update''" and "\<not> dict_has d f"
  shows "map_of (partial_merge d now status) f = map_of status f"
  using assms
  by (simp add: partial_merge_def map_of_put_if_absent AList.update_conv')

lemma map_of_partial_merge_last_update:
  "map_of (partial_merge d now status) (KStr ''last_update'') = Some (PStr now)"
  by (simp add: partial_merge_def map_of_put_if_other AList.update_conv')

lemma map_of_partial_merge_alive:
  "map_of d (KStr ''alive'') = Some v \<Longrightarrow>
     map_of (partial_merge d now status) (KStr ''alive'') = Some (PBool (py_truthy v))"
  by (simp add: partial_merge_def map_of_put_if_other AList.update_conv')
     (simp add: map_of_put_if)

lemma map_of_partial_merge_assigned_to:
  "map_of d (KStr ''assigned_to'') = Some v \<Longrightarrow>
     map_of (partial_merge d now status) (KStr ''assigned_to'') = Some v"
  by (simp add: partial_merge_def map_of_put_if_other AList.update_conv')
     (simp add: map_of_put_if)

lemma map_of_partial_merge_capabilities:
  "map_of d (KStr ''capabilities'') = Some v \<Longrightarrow>
     map_of (partial_merge d now status) (KStr ''capabilities'')
       = (if is_list v then Some v else map_of status (KStr ''capabilities''))"
  by (simp add: partial_merge_def map_of_put_if[of d "''capabilities''"] map_of_put_if_other
        AList.update_conv')

lemma map_of_partial_merge_tags:
  "map_of d (KStr ''tags'') = Some v \<Longrightarrow>
     map_of (partial_merge d now status) (KStr ''tags'')
       = (if is_list v then Some v else map_of status (KStr ''tags''))"
  by (simp add: partial_merge_def map_of_put_if[of d "''tags''"] map_of_put_if_other
        AList.update_conv')

lemma map_of_partial_merge_description:
  "map_of d (KStr ''description'') = Some v \<Longrightarrow>
     map_of (partial_merge d now status) (KStr ''description'')
       = (if is_str v then Some v else map_of status (KStr ''description''))"
  by (simp add: partial_merge_def map_of_put_if[of d "''description''"] map_of_put_if_other
        AList.update_conv')

lemma data_or_empty: "(if py_truthy (PDict d) then PDict d else PDict []) = PDict d"
  by (cases d) simp_all

lemma build_agent_payload_dict:
  assumes "map_of (registry st) k_agent_status = Some (PDict sm)"
    and "dict_get sm k (PDict []) = PDict status"
  shows "build_agent_payload st k =
     Inr (PDict
        [(KStr ''agent_id'', key_val k),
         (KStr ''agent_url'', dict_get (registry st) k PNone),
         (KStr ''api_url'', dict_get status (KStr ''api_url'') PNone),
         (KStr ''alive'', dict_get status (KStr ''alive'') (PBool False)),
         (KStr ''assigned_to'', dict_get status (KStr ''assigned_to'') PNone),
         (KStr ''last_update'', dict_get status (KStr ''last_update'') PNone),
         (KStr ''capabilities'', dict_get status (KStr ''capabilities'') (PList [])),
         (KStr ''tags'', dict_get status (KStr ''tags'') (PList [])),
         (KStr ''description'', dict_get status (KStr ''description'') (PStr []))])"
  using assms
  by (simp add: build_agent_payload_def dict_get_def[of "registry st"] bindE_def)

lemma build_agent_payload_wf:
  assumes "wf_cache st"
  shows "build_agent_payload st k =
     Inr (PDict
        [(KStr ''agent_id'', key_val k),
         (KStr ''agent_url'', dict_get (registry st) k PNone),
         (KStr ''api_url'', dict_get (status_obj_of st k) (KStr ''api_url'') PNone),
         (KStr ''alive'', dict_get (status_obj_of st k) (KStr ''alive'') (PBool False)),
         (KStr ''assigned_to'', dict_get (status_obj_of st k) (KStr ''assigned_to'') PNone),
         (KStr ''last_update'', dict_get (status_obj_of st k) (KStr ''last_update'') PNone),
         (KStr ''capabilities'',
          dict_get (status_obj_of st k) (KStr ''capabilities'') (PList [])),
         (KStr ''tags'', dict_get (status_obj_of st k) (KStr ''tags'') (PList [])),
         (KStr ''description'',
          dict_get (status_obj_of st k) (KStr ''description'') (PStr []))])"
proof -
  from status_lookup[OF assms, of k "PDict []"] obtain sm
    where "map_of (registry st) k_agent_status = Some (PDict sm)"
      and "dict_get sm k (PDict []) = PDict (status_obj_of st k)"
    by blast
  then show ?thesis by (rule build_agent_payload_dict)
qed

lemma wf_cacheI:
  assumes "map_of (registry st) k_agent_status = Some (PDict sm)"
    and "\<forall>v \<in> set (map snd sm). is_dict v"
    and "map_of (client_registry st) k_agent_map = Some (PDict am)"
  shows "wf_cache st"
  using assms by (simp add: wf_cache_def)

lemma wf_cache_values:
  assumes "wf_cache st" and "map_of (registry st) k_agent_status = Some (PDict sm)"
  shows "\<forall>v \<in> set (map snd sm). is_dict v"
  using assms by (simp add: wf_cache_def)

lemma all_values_update:
  "\<forall>x \<in> set (map snd al). P x \<Longrightarrow> P v \<Longrightarrow> \<forall>x \<in> set (map snd (AList.update k v al)). P x"
  by (induction al) auto

lemma get_agent_wf:
  assumes "wf_cache st" and "agent_present st aid"
  shows "\<exists>payload. build_agent_payload st (KStr aid) = Inr payload
           \<and> get_agent st aid = Inr (payload, 200)"
proof -
  from assms(2)
  have c: "(\<not> dict_has (registry st) (KStr aid) \<or> aid = ''agent_status'') = False"
    by (simp add: agent_present_def)
  from build_agent_payload_wf[OF assms(1), of "KStr aid"] show ?thesis
    unfolding get_agent_def c by (simp add: bindE_def)
qed

lemma update_agent_status_wf:
  assumes wf: "wf_cache st" and p: "agent_present st aid"
  shows "\<exists>st' payload.
       update_agent_status st aid (PDict d) now =
         (Inr (PDict [(KStr ''status'', PStr ''updated''), (KStr ''agent'', payload)], 200), st')
     \<and> get_agent st' aid = Inr (payload, 200)
     \<and> wf_cache st' \<and> agent_present st' aid
     \<and> status_obj_of st' (KStr aid) = partial_merge d now (status_obj_of st (KStr aid))
     \<and> dict_get (registry st') (KStr aid) PNone = dict_get (registry st) (KStr aid) PNone"
proof -
  from status_lookup[OF wf, of "KStr aid" "PDict []"] obtain sm
    where sm: "map_of (registry st) k_agent_status = Some (PDict sm)"
      and g: "dict_get sm (KStr aid) (PDict []) = PDict (status_obj_of st (KStr aid))"
    by blast
  from wf_cacheD[OF wf] obtain am
    where am: "map_of (client_registry st) k_agent_map = Some (PDict am)" by blast
  let ?merged = "partial_merge d now (status_obj_of st (KStr aid))"
  let ?sm' = "AList.update (KStr aid) (PDict ?merged) sm"
  let ?reg = "AList.update k_agent_status (PDict ?sm') (registry st)"
  let ?st' = "save_registry (st\<lparr>registry := ?reg\<rparr>)"
  from p have c: "(\<not> dict_has (registry st) (KStr aid) \<or> aid = ''agent_status'') = False"
    and ns: "aid \<noteq> ''agent_status''" and has: "dict_has (registry st) (KStr aid)"
    by (simp_all add: agent_present_def)
  have reg': "registry ?st' = ?reg" and cr': "client_registry ?st' = client_registry st"
    by simp_all
  have sm': "map_of (registry ?st') k_agent_status = Some (PDict ?sm')"
    by (simp add: AList.update_conv')
  have vals: "\<forall>v \<in> set (map snd ?sm'). is_dict v"
    by (rule all_values_update[OF wf_cache_values[OF wf sm]]) simp
  have wf': "wf_cache ?st'"
  proof (rule wf_cacheI)
    show "map_of (registry ?st') k_agent_status = Some (PDict ?sm')" by (rule sm')
    show "\<forall>v \<in> set (map snd ?sm'). is_dict v" by (rule vals)
    show "map_of (client_registry ?st') k_agent_map = Some (PDict am)" using am by simp
  qed
  have so': "status_obj_of ?st' (KStr aid) = ?merged"
    by (simp add: status_obj_of_def AList.update_conv')
  have p': "agent_present ?st' aid"
    using has ns by (simp add: agent_present_def dict_has_update)
  from get_agent_wf[OF wf' p'] obtain payload
    where b: "build_agent_payload ?st' (KStr aid) = Inr payload"
      and ga: "get_agent ?st' aid = Inr (payload, 200)" by blast
  have url: "dict_get (registry ?st') (KStr aid) PNone = dict_get (registry st) (KStr aid) PNone"
    using ns by (simp add: dict_get_def AList.update_conv')
  have "update_agent_status st aid (PDict d) now =
         (Inr (PDict [(KStr ''status'', PStr ''updated''), (KStr ''agent'', payload)], 200), ?st')"
    unfolding update_agent_status_def c data_or_empty
    by (simp add: sm g dict_get_def[of "registry st"] run_merge_steps dict_index_def
          bindE_def Let_def b)
  with ga wf' p' so' url show ?thesis by blast
qed

lemma view_field_get_agent:
  assumes "wf_cache st" and "agent_present st aid"
  shows "view_field (get_agent st aid) ''alive''
           = Some (dict_get (status_obj_of st (KStr aid)) (KStr ''alive'') (PBool False))"
    and "view_field (get_agent st aid) ''capabilities''
           = Some (dict_get (status_obj_of st (KStr aid)) (KStr ''capabilities'') (PList []))"
    and "view_field (get_agent st aid) ''tags''
           = Some (dict_get (status_obj_of st (KStr aid)) (KStr ''tags'') (PList []))"
    and "view_field (get_agent st aid) ''description''
           = Some (dict_get (status_obj_of st (KStr aid)) (KStr ''description'') (PStr []))"
proof -
  from get_agent_wf[OF assms] build_agent_payload_wf[OF assms(1), of "KStr aid"]
  obtain payload where "get_agent st aid = Inr (payload, 200)"
    and "build_agent_payload st (KStr aid) = Inr payload" by blast
  with build_agent_payload_wf[OF assms(1), of "KStr aid"]
  show "view_field (get_agent st aid) ''alive''
           = Some (dict_get (status_obj_of st (KStr aid)) (KStr ''alive'') (PBool False))"
    and "view_field (get_agent st aid) ''capabilities''
           = Some (dict_get (status_obj_of st (KStr aid)) (KStr ''capabilities'') (PList []))"
    and "view_field (get_agent st aid) ''tags''
           = Some (dict_get (status_obj_of st (KStr aid)) (KStr ''tags'') (PList []))"
    and "view_field (get_agent st aid) ''description''
           = Some (dict_get (status_obj_of st (KStr aid)) (KStr ''description'') (PStr []))"
    by (auto simp: view_field_def)
qed

lemma dict_get_cong_map_of:
  "map_of a (KStr s) = map_of b (KStr s) \<Longrightarrow> dict_get a (KStr s) dflt = dict_get b (KStr s) dflt"
  by (simp add: dict_get_def)

lemma missing_fields_dict:
  "missing_fields (PDict d) =
     Inr (d = [] \<or> \<not> dict_has d (KStr ''agent_id'') \<or> \<not> dict_has d (KStr ''agent_url''))"
  by (auto simp: missing_fields_def bindE_def)

lemma register_refused:
  assumes "d = [] \<or> \<not> dict_has d (KStr ''agent_id'') \<or> \<not> dict_has d (KStr ''agent_url'')"
  shows "register st (PDict d) now = (Inr bad_request, st)"
  using assms by (simp add: register_def missing_fields_dict)

lemma register_not_400:
  assumes "\<not> (d = [] \<or> \<not> dict_has d (KStr ''agent_id'') \<or> \<not> dict_has d (KStr ''agent_url''))"
  shows "register st (PDict d) now \<noteq> (Inr (body, 400), st')"
  using assms
  by (auto simp: register_def missing_fields_dict Let_def split: sum.splits prod.splits)

lemma register_success:
  assumes wf: "wf_cache st"
    and ident: "map_of d (KStr ''agent_id'') = Some (PStr aid)"
    and ns: "aid \<noteq> ''agent_status''"
    and url: "map_of d (KStr ''agent_url'') = Some u"
  shows "\<exists>st' sm. map_of (registry st) k_agent_status = Some (PDict sm)
     \<and> register st (PDict d) now =
         (Inr (PDict [(KStr ''status'', PStr ''success''),
                      (KStr ''message'', PStr (''Agent '' @ aid @ '' registered''))], 200), st')
     \<and> registry st' =
         AList.update k_agent_status
           (PDict (AList.update (KStr aid) (PDict (fresh_status d now)) sm))
           (AList.update (KStr aid) u (registry st))
     \<and> client_registry st' = client_registry st"
proof -
  from wf_cacheD[OF wf] obtain sm
    where sm: "map_of (registry st) k_agent_status = Some (PDict sm)" by blast
  let ?reg1 = "AList.update (KStr aid) u (registry st)"
  let ?reg = "AList.update k_agent_status
           (PDict (AList.update (KStr aid) (PDict (fresh_status d now)) sm)) ?reg1"
  let ?st' = "save_registry (st\<lparr>registry := ?reg\<rparr>)"
  from ident url have m: "missing_fields (PDict d) = Inr False"
    by (auto simp: missing_fields_dict dict_has_map_of)
  from sm ns have s1: "map_of ?reg1 k_agent_status = Some (PDict sm)"
    by (simp add: AList.update_conv')
  then have h1: "dict_has ?reg1 k_agent_status" by (simp add: dict_has_map_of)
  have "register st (PDict d) now =
         (Inr (PDict [(KStr ''status'', PStr ''success''),
                      (KStr ''message'', PStr (''Agent '' @ aid @ '' registered''))], 200), ?st')"
    unfolding register_def m
    by (simp add: ident url dict_index_def bindE_def Let_def h1 s1 fresh_status_def)
  with sm show ?thesis by (intro exI[of _ ?st'] exI[of _ sm]) simp
qed

lemma get_agent_eq:
  assumes "wf_cache st" and "wf_cache st'"
    and "dict_has (registry st') (KStr other) = dict_has (registry st) (KStr other)"
    and "dict_get (registry st') (KStr other) PNone = dict_get (registry st) (KStr other) PNone"
    and "status_obj_of st' (KStr other) = status_obj_of st (KStr other)"
  shows "get_agent st' other = get_agent st other"
  unfolding get_agent_def build_agent_payload_wf[OF assms(1)] build_agent_payload_wf[OF assms(2)]
  using assms(3-5) by simp

lemma register_effect:
  assumes wf: "wf_cache st"
    and ident: "map_of d (KStr ''agent_id'') = Some (PStr aid)"
    and ns: "aid \<noteq> ''agent_status''"
    and url: "map_of d (KStr ''agent_url'') = Some u"
  shows "\<exists>body st'. register st (PDict d) now = (Inr (body, 200), st')
     \<and> wf_cache st' \<and> agent_present st' aid
     \<and> map_of (registry st') (KStr aid) = Some u
     \<and> map_of (status_map_of st') (KStr aid) = Some (PDict (fresh_status d now))
     \<and> status_obj_of st' (KStr aid) = fresh_status d now
     \<and> (\<forall>other. other \<noteq> aid \<longrightarrow> get_agent st' other = get_agent st other)"
proof -
  from register_success[OF assms, of now] obtain st' sm where
    sm: "map_of (registry st) k_agent_status = Some (PDict sm)"
    and r: "register st (PDict d) now =
         (Inr (PDict [(KStr ''status'', PStr ''success''),
                      (KStr ''message'', PStr (''Agent '' @ aid @ '' registered''))], 200), st')"
    and reg: "registry st' =
         AList.update k_agent_status
           (PDict (AList.update (KStr aid) (PDict (fresh_status d now)) sm))
           (AList.update (KStr aid) u (registry st))"
    and cr: "client_registry st' = client_registry st"
    by blast
  from wf_cacheD[OF wf] obtain am
    where am: "map_of (client_registry st) k_agent_map = Some (PDict am)" by blast
  let ?sm' = "AList.update (KStr aid) (PDict (fresh_status d now)) sm"
  have sm': "map_of (registry st') k_agent_status = Some (PDict ?sm')"
    by (simp add: reg AList.update_conv')
  have wf': "wf_cache st'"
  proof (rule wf_cacheI)
    show "map_of (registry st') k_agent_status = Some (PDict ?sm')" by (rule sm')
    show "\<forall>v \<in> set (map snd ?sm'). is_dict v"
      by (rule all_values_update[OF wf_cache_values[OF wf sm]]) simp
    show "map_of (client_registry st') k_agent_map = Some (PDict am)" using am cr by simp
  qed
  have p': "agent_present st' aid"
    using ns by (simp add: agent_present_def reg dict_has_update)
  have u': "map_of (registry st') (KStr aid) = Some u"
    using ns by (simp add: reg AList.update_conv')
  have s': "map_of (status_map_of st') (KStr aid) = Some (PDict (fresh_status d now))"
    by (simp add: status_map_of_def sm' AList.update_conv')
  have so': "status_obj_of st' (KStr aid) = fresh_status d now"
    by (simp add: status_obj_of_def sm' AList.update_conv')
  have fr: "get_agent st' other = get_agent st other" if "other \<noteq> aid" for other
  proof (cases "other = ''agent_status''")
    case True
    then show ?thesis by (simp add: get_agent_def)
  next
    case False
    show ?thesis
    proof (rule get_agent_eq[OF wf wf'])
      from sm have "dict_has (registry st) k_agent_status" by (simp add: dict_has_map_of)
      with that show "dict_has (registry st') (KStr other) = dict_has (registry st) (KStr other)"
        by (auto simp: reg dict_has_update)
      from that False
      show "dict_get (registry st') (KStr other) PNone
              = dict_get (registry st) (KStr other) PNone"
        by (simp add: reg dict_get_def AList.update_conv')
      from that show "status_obj_of st' (KStr other) = status_obj_of st (KStr other)"
        by (simp add: status_obj_of_def sm' sm AList.update_conv')
    qed
  qed
  from r wf' p' u' s' so' fr show ?thesis by blast
qed

lemma key_val_inj: "key_val a = key_val b \<longleftrightarrow> a = b"
  by (cases a; cases b) simp_all

lemma mongo_match_plain:
  "map_of doc f = Some (key_val k) \<Longrightarrow> mongo_match doc f v \<longleftrightarrow> key_val k = v"
  by (cases k) (simp_all add: mongo_match_def)

lemma update_one_keeps:
  "doc \<in> set col \<Longrightarrow> \<not> mongo_match doc f v \<Longrightarrow> doc \<in> set (update_one f v nf col)"
  by (induction col) auto

lemma save_registry_loop_keeps:
  assumes "map_of doc ''agent_id'' = Some (key_val k)"
  shows "doc \<in> set col \<Longrightarrow> k \<notin> fst ` set items \<Longrightarrow>
           doc \<in> set (save_registry_loop reg items col)"
proof (induction items arbitrary: col)
  case Nil
  then show ?case by simp
next
  case (Cons kv items)
  obtain k' u where kv: "kv = (k', u)" by (cases kv)
  with Cons.prems have ne: "k' \<noteq> k" and rest: "k \<notin> fst ` set items" by auto
  from ne have "\<not> mongo_match doc ''agent_id'' (key_val k')"
    by (simp add: mongo_match_plain[OF assms] key_val_inj)
  from update_one_keeps[OF Cons.prems(1) this]
  have "doc \<in> set (save_registry_loop reg items (update_one ''agent_id'' (key_val k') nf col))"
    for nf by (rule Cons.IH[OF _ rest])
  with Cons.IH[OF Cons.prems(1) rest] Cons.prems(1) show ?case
    by (simp add: kv split: sum.splits)
qed

lemma save_client_loop_keeps:
  assumes "map_of doc ''client_name'' = Some (key_val k)"
  shows "doc \<in> set col \<Longrightarrow> k \<notin> fst ` set items \<Longrightarrow>
           doc \<in> set (save_client_loop cr items col)"
proof (induction items arbitrary: col)
  case Nil
  then show ?case by simp
next
  case (Cons kv items)
  obtain k' u where kv: "kv = (k', u)" by (cases kv)
  with Cons.prems have ne: "k' \<noteq> k" and rest: "k \<notin> fst ` set items" by auto
  from ne have "\<not> mongo_match doc ''client_name'' (key_val k')"
    by (simp add: mongo_match_plain[OF assms] key_val_inj)
  from update_one_keeps[OF Cons.prems(1) this]
  have "doc \<in> set (save_client_loop cr items (update_one ''client_name'' (key_val k') nf col))"
    for nf by (rule Cons.IH[OF _ rest])
  with Cons.IH[OF Cons.prems(1) rest] Cons.prems(1) show ?case
    by (simp add: kv split: sum.splits)
qed

lemma delete_agent_success_form:
  assumes del: "delete_agent st agent_id = (Inr (body, 200), st')"
  shows "\<exists>reg2 cr.
      st' = save_client_registry (save_registry (st\<lparr>registry := reg2, client_registry := cr\<rparr>))
    \<and> \<not> dict_has reg2 (KStr agent_id)
    \<and> (\<forall>name. (name, PStr agent_id) \<in> set (agent_map_of st) \<longrightarrow> \<not> dict_has cr name)"
proof -
  let ?k = "KStr agent_id"
  let ?reg1 = "AList.delete ?k (registry st)"
  from del have pres: "dict_has (registry st) ?k" and ns: "agent_id \<noteq> ''agent_status''"
    by (auto simp: delete_agent_def not_found_def split: if_splits)
  from del pres ns obtain reg2 items cr where
    reg2: "(case map_of ?reg1 k_agent_status of
                None \<Rightarrow> Inr ?reg1
              | Some status_map \<Rightarrow>
                  bindE (py_pop status_map ?k) (\<lambda>status_map'.
                  Inr (AList.update k_agent_status status_map' ?reg1))) = Inr reg2"
    and items: "py_items (dict_get (client_registry st) k_agent_map (PDict [])) = Inr items"
    and rc: "remove_clients (map fst (filter (\<lambda>(client_name, mapped_agent).
                                  mapped_agent = PStr agent_id) items)) (client_registry st)
               = (None, cr)"
    and st': "st' = save_client_registry
                            (save_registry (st\<lparr>registry := reg2, client_registry := cr\<rparr>))"
    by (auto simp: delete_agent_def Let_def split: sum.splits prod.splits option.splits)
  have items_eq: "items = agent_map_of st"
    using items
    by (cases "map_of (client_registry st) k_agent_map")
       (auto simp: dict_get_def agent_map_of_def agent_map_in_def split: pyval.splits)
  let ?to_remove = "map fst (filter (\<lambda>(client_name, mapped_agent).
                                  mapped_agent = PStr agent_id) items)"
  have a: "\<not> dict_has reg2 (KStr agent_id)"
    using reg2 ns
    by (auto simp: dict_has_delete dict_has_update bindE_def split: option.splits sum.splits)
  have b: "\<not> dict_has cr name" if "(name, PStr agent_id) \<in> set (agent_map_of st)" for name
  proof -
    from that have "name \<in> set ?to_remove" unfolding items_eq by force
    from remove_clients_keys[OF rc this] show ?thesis .
  qed
  from st' a b show ?thesis by blast
qed

lemma save_registry_keeps:
  assumes "agent_registry_col st = Some col" and "doc \<in> set col"
    and "map_of doc ''agent_id'' = Some (key_val k)" and "\<not> dict_has (registry st) k"
  shows "\<exists>col'. agent_registry_col (save_registry st) = Some col' \<and> doc \<in> set col'"
  using assms save_registry_loop_keeps[OF assms(3,2), of "registry st" "registry st"]
    dict_has_not_key[OF assms(4)]
  by (simp add: save_registry_def)

lemma save_client_registry_keeps:
  assumes "client_registry_col st = Some col" and "doc \<in> set col"
    and "map_of doc ''client_name'' = Some (key_val k)" and "\<not> dict_has (client_registry st) k"
  shows "\<exists>col'. client_registry_col (save_client_registry st) = Some col' \<and> doc \<in> set col'"
  using assms save_client_loop_keeps[OF assms(3,2), of "client_registry st" "client_registry st"]
    dict_has_not_key[OF assms(4)]
  by (simp add: save_client_registry_def)

lemma agent_col_save_client [simp]:
  "agent_registry_col (save_client_registry st) = agent_registry_col st"
  by (simp add: save_client_registry_def split: option.splits)

lemma client_col_save_registry [simp]:
  "client_registry_col (save_registry st) = client_registry_col st"
  by (simp add: save_registry_def split: option.splits)

lemma any_in_list: "any_in cs (PList xs) = Inr (\<exists>c \<in> set cs. PStr c \<in> set xs)"
  by (induction cs) (auto simp: bindE_def)

lemma or_empty_list: "or_empty (PList xs) = PList xs"
  by (cases xs) (simp_all add: or_empty_def)

lemma filter_rejects_list:
  assumes "map_of payload (KStr field) = Some (PList xs)"
  shows "filter_rejects wanted field (PDict payload)
           = Inr (wanted \<noteq> [] \<and> \<not> (\<exists>c \<in> set wanted. PStr c \<in> set xs))"
  using assms by (simp add: filter_rejects_def bindE_def dict_get_def or_empty_list any_in_list)

lemma split_on_not_Nil: "split_on sep s \<noteq> []"
  by (induction s) (auto split: list.splits)

lemma filter_list_matches:
  "(filter_list str_strip f = [] \<or> (\<exists>c \<in> set (filter_list str_strip f). PStr c \<in> set xs))
     = filter_matches str_strip f xs"
  by (cases f) (auto simp: filter_list_def filter_matches_def split_on_not_Nil)

lemma agent_view_wf:
  assumes "wf_cache st"
  shows "build_agent_payload st k = Inr (agent_view st k)"
    and "is_dict (agent_view st k)"
  using build_agent_payload_wf[OF assms, of k] by (simp_all add: agent_view_def)

lemma payload_list_fields:
  assumes wf: "wf_cache st"
    and c: "is_list (dict_get (status_obj_of st k) (KStr ''capabilities'') (PList []))"
    and t: "is_list (dict_get (status_obj_of st k) (KStr ''tags'') (PList []))"
  shows "\<exists>payload. build_agent_payload st k = Inr (PDict payload)
      \<and> agent_view st k = PDict payload
      \<and> map_of payload (KStr ''capabilities'') = Some (PList (list_field st k ''capabilities''))
      \<and> map_of payload (KStr ''tags'') = Some (PList (list_field st k ''tags''))"
proof -
  from c obtain cs
    where cs: "dict_get (status_obj_of st k) (KStr ''capabilities'') (PList []) = PList cs"
    by (cases "dict_get (status_obj_of st k) (KStr ''capabilities'') (PList [])") simp_all
  from t obtain ts
    where ts: "dict_get (status_obj_of st k) (KStr ''tags'') (PList []) = PList ts"
    by (cases "dict_get (status_obj_of st k) (KStr ''tags'') (PList [])") simp_all
  show ?thesis
    unfolding agent_view_def build_agent_payload_wf[OF wf]
    by (simp add: list_field_def cs ts)
qed

lemma search_loop_step:
  assumes wf: "wf_cache st" and ne: "k \<noteq> k_agent_status" and sk: "is_str_key k"
    and c: "is_list (dict_get (status_obj_of st k) (KStr ''capabilities'') (PList []))"
    and t: "is_list (dict_get (status_obj_of st k) (KStr ''tags'') (PList []))"
  shows "search_loop str_lower st query caps tags results (k # keys) =
           search_loop str_lower st query caps tags
             (if keeps str_lower st query caps tags k then results @ [agent_view st k] else results) keys"
proof -
  from sk obtain s where s: "k = KStr s" by (cases k) simp_all
  from payload_list_fields[OF wf c t] obtain payload where
    b: "build_agent_payload st (KStr s) = Inr (PDict payload)"
    and v: "agent_view st (KStr s) = PDict payload"
    and pc: "map_of payload (KStr ''capabilities'')
               = Some (PList (list_field st (KStr s) ''capabilities''))"
    and pt: "map_of payload (KStr ''tags'') = Some (PList (list_field st (KStr s) ''tags''))"
    unfolding s by blast
  from ne have ne': "s \<noteq> ''agent_status''" by (simp add: s)
  show ?thesis
    unfolding s
    by (simp add: ne' bindE_def b v filter_rejects_list[OF pc] filter_rejects_list[OF pt]
          keeps_def)
qed

lemma search_loop_filter:
  assumes wf: "wf_cache st"
  shows "\<forall>k \<in> set keys. k \<noteq> k_agent_status \<longrightarrow>
           is_str_key k
           \<and> is_list (dict_get (status_obj_of st k) (KStr ''capabilities'') (PList []))
           \<and> is_list (dict_get (status_obj_of st k) (KStr ''tags'') (PList [])) \<Longrightarrow>
         search_loop str_lower st query caps tags results keys =
           Inr (results @ map (agent_view st)
                  (filter (keeps str_lower st query caps tags) (filter (\<lambda>k. k \<noteq> k_agent_status) keys)))"
proof (induction keys arbitrary: results)
  case Nil
  then show ?case by simp
next
  case (Cons k keys)
  show ?case
  proof (cases "k = k_agent_status")
    case True
    with Cons show ?thesis by simp
  next
    case False
    with Cons.prems have ok: "is_str_key k"
      "is_list (dict_get (status_obj_of st k) (KStr ''capabilities'') (PList []))"
      "is_list (dict_get (status_obj_of st k) (KStr ''tags'') (PList []))"
      by simp_all
    from Cons.prems have rest: "\<forall>k \<in> set keys. k \<noteq> k_agent_status \<longrightarrow>
           is_str_key k
           \<and> is_list (dict_get (status_obj_of st k) (KStr ''capabilities'') (PList []))
           \<and> is_list (dict_get (status_obj_of st k) (KStr ''tags'') (PList []))"
      by simp
    show ?thesis
      unfolding search_loop_step[OF wf False ok]
      using False by (simp add: Cons.IH[OF rest])
  qed
qed

lemma keeps_matches:
  "keeps str_lower st (str_lower (str_strip (case q of None \<Rightarrow> [] | Some s \<Rightarrow> s)))
      (filter_list str_strip cf) (filter_list str_strip tf) k
   = (query_matches str_lower str_strip q k
      \<and> filter_matches str_strip cf (list_field st k ''capabilities'')
      \<and> filter_matches str_strip tf (list_field st k ''tags''))"
  unfolding keeps_def filter_list_matches query_matches_def Let_def by (rule refl)

section \<open>Totality\<close>

text \<open>
  C1. Every public operation returns a typed success or a typed failure and raises no
  uncaught exception; in particular \<open>lookup\<close> of a client alias whose agent has no record
  returns a typed result. The code does otherwise: in the state right after start-up,
  \<open>lookup\<close> of the name \<open>agent_map\<close> finds the name among the keys of \<open>client_registry\<close>
  and raises \<open>KeyError\<close> at line 299; and for an alias \<open>c1\<close> that maps to an agent \<open>a1\<close>
  with no record, \<open>lookup\<close> raises \<open>KeyError\<close> at line 300.
\<close>

theorem lookup_raises_KeyError:
  "lookup initial_state ''agent_map'' = Inl KeyError
   \<and> lookup dangling_state ''c1'' = Inl KeyError"
  by (simp add: lookup_def initial_state_def dangling_state_def dict_has_def dict_index_def
        bindE_def)

section \<open>Resolution order of lookup\<close>

text \<open>
  C2. \<open>lookup\<close> resolves a name in this order: a present agent id gives the agent's own
  record; otherwise a registered client name gives the mapped agent's id and URL with the
  alias's API URL; otherwise the answer is NotFound. The code does otherwise at the name
  \<open>agent_map\<close>: it is no agent id and no client name, but it is a key of
  \<open>client_registry\<close>, so the test of line 298 holds and line 299 raises \<open>KeyError\<close> where
  the claim says NotFound. This is so right after start-up and in the cache with the
  record \<open>A1\<close> and the alias \<open>C1\<close>.
\<close>

theorem lookup_agent_map_raises:
  "\<not> agent_present initial_state ''agent_map''
   \<and> alias_target initial_state ''agent_map'' = None
   \<and> lookup initial_state ''agent_map'' = Inl KeyError
   \<and> \<not> agent_present alias_state ''agent_map''
   \<and> alias_target alias_state ''agent_map'' = None
   \<and> lookup alias_state ''agent_map'' = Inl KeyError"
  by (simp add: lookup_def initial_state_def alias_state_def agent_present_def
        alias_target_def dict_has_def dict_index_def bindE_def)

text \<open>
  For the other names the order is the one of the claim. In a well-formed cache a present
  agent id (other than the reserved name) gives that agent's id, URL, API URL and
  description; otherwise a client name whose alias maps to a present agent gives the
  agent's id, URL and description with the alias's own API URL; a name that is no key of
  either dictionary gives status 404. At the record \<open>A1\<close> with URL \<open>U\<close> and the alias
  \<open>C1\<close> to \<open>A1\<close> with API URL \<open>V\<close>, \<open>lookup('C1')\<close> returns \<open>A1\<close>, \<open>U\<close> and \<open>V\<close>.
\<close>

theorem lookup_resolution_order:
  assumes "wf_cache st"
  shows "(agent_present st name \<longrightarrow>
            lookup st name =
              Inr (PDict [(KStr ''agent_id'', PStr name),
                          (KStr ''agent_url'', dict_get (registry st) (KStr name) PNone),
                          (KStr ''api_url'',
                           dict_get (status_obj_of st (KStr name)) (KStr ''api_url'') PNone),
                          (KStr ''description'',
                           dict_get (status_obj_of st (KStr name)) (KStr ''description'')
                             (PStr []))], 200))
       \<and> (\<not> agent_present st name \<and> dict_has (client_registry st) (KStr name)
            \<and> alias_target st name = Some (PStr aid) \<and> agent_present st aid \<longrightarrow>
            lookup st name =
              Inr (PDict [(KStr ''agent_id'', PStr aid),
                          (KStr ''agent_url'', dict_get (registry st) (KStr aid) PNone),
                          (KStr ''api_url'', dict_get (client_registry st) (KStr name) PNone),
                          (KStr ''description'',
                           dict_get (status_obj_of st (KStr aid)) (KStr ''description'')
                             (PStr []))], 200))
       \<and> (\<not> agent_present st name \<and> \<not> dict_has (client_registry st) (KStr name) \<longrightarrow>
            (\<exists>body. lookup st name = Inr (body, 404)))"
  using lookup_agent_branch[OF assms] lookup_alias_branch[OF assms] lookup_not_found
  by blast

lemma alias_state_facts:
  "wf_cache alias_state"
  "agent_present alias_state ''A1''"
  "\<not> agent_present alias_state ''C1''"
  "dict_has (client_registry alias_state) (KStr ''C1'')"
  "alias_target alias_state ''C1'' = Some (PStr ''A1'')"
  "\<not> agent_present alias_state ''zz''"
  "\<not> dict_has (client_registry alias_state) (KStr ''zz'')"
  by (simp_all add: wf_cache_def alias_state_def initial_state_def agent_present_def
        dict_has_def alias_target_def)

theorem lookup_resolution_order_witness:
  "wf_cache alias_state
   \<and> agent_present alias_state ''A1''
   \<and> lookup alias_state ''A1'' =
       Inr (PDict [(KStr ''agent_id'', PStr ''A1''), (KStr ''agent_url'', PStr ''U''),
                   (KStr ''api_url'', PStr ''W''),
                   (KStr ''description'', PStr ''planner'')], 200)
   \<and> \<not> agent_present alias_state ''C1''
   \<and> dict_has (client_registry alias_state) (KStr ''C1'')
   \<and> alias_target alias_state ''C1'' = Some (PStr ''A1'')
   \<and> lookup alias_state ''C1'' =
       Inr (PDict [(KStr ''agent_id'', PStr ''A1''), (KStr ''agent_url'', PStr ''U''),
                   (KStr ''api_url'', PStr ''V''),
                   (KStr ''description'', PStr ''planner'')], 200)
   \<and> \<not> agent_present alias_state ''zz''
   \<and> \<not> dict_has (client_registry alias_state) (KStr ''zz'')
   \<and> (\<exists>body. lookup alias_state ''zz'' = Inr (body, 404))"
proof -
  note f = alias_state_facts
  have v: "dict_get (registry alias_state) (KStr ''A1'') PNone = PStr ''U''"
    "dict_get (status_obj_of alias_state (KStr ''A1'')) (KStr ''api_url'') PNone = PStr ''W''"
    "dict_get (status_obj_of alias_state (KStr ''A1'')) (KStr ''description'') (PStr [])
       = PStr ''planner''"
    "dict_get (client_registry alias_state) (KStr ''C1'') PNone = PStr ''V''"
    by (simp_all add: alias_state_def initial_state_def dict_get_def status_obj_of_def)
  from lookup_resolution_order[OF f(1), of "''A1''" "''A1''"] f(2)
  have a: "lookup alias_state ''A1'' =
       Inr (PDict [(KStr ''agent_id'', PStr ''A1''), (KStr ''agent_url'', PStr ''U''),
                   (KStr ''api_url'', PStr ''W''),
                   (KStr ''description'', PStr ''planner'')], 200)"
    unfolding v by blast
  from lookup_resolution_order[OF f(1), of "''C1''" "''A1''"] f(2-5)
  have b: "lookup alias_state ''C1'' =
       Inr (PDict [(KStr ''agent_id'', PStr ''A1''), (KStr ''agent_url'', PStr ''U''),
                   (KStr ''api_url'', PStr ''V''),
                   (KStr ''description'', PStr ''planner'')], 200)"
    unfolding v by blast
  from lookup_resolution_order[OF f(1), of "''zz''" "''A1''"] f(6-7)
  have c: "\<exists>body. lookup alias_state ''zz'' = Inr (body, 404)"
    by blast
  from f a b c show ?thesis by blast
qed

section \<open>Cascade of a deletion\<close>

text \<open>
  C3. After \<open>delete_agent\<close> succeeds, the agent is gone from the cache (its URL and its
  status object), no entry of the alias map has the deleted id as its agent, and every
  client name that was mapped to the deleted id is gone from \<open>client_registry\<close>. In a
  well-formed cache the deletion of a present agent succeeds.
\<close>

theorem delete_cascade:
  "(delete_agent st agent_id = (Inr (body, 200), st') \<longrightarrow>
      \<not> dict_has (registry st') (KStr agent_id)
      \<and> \<not> dict_has (status_map_of st') (KStr agent_id)
      \<and> (\<forall>(client_name, mapped_agent) \<in> set (agent_map_of st').
            mapped_agent \<noteq> PStr agent_id)
      \<and> (\<forall>(client_name, mapped_agent) \<in> set (agent_map_of st).
            mapped_agent = PStr agent_id \<longrightarrow> \<not> dict_has (client_registry st') client_name))
   \<and> (wf_cache st \<and> agent_present st agent_id \<longrightarrow>
      (\<exists>b s. delete_agent st agent_id = (Inr (b, 200), s)))"
proof (intro conjI impI)
  assume del: "delete_agent st agent_id = (Inr (body, 200), st')"
  let ?k = "KStr agent_id"
  let ?reg1 = "AList.delete ?k (registry st)"
  from del have pres: "dict_has (registry st) ?k" and ns: "agent_id \<noteq> ''agent_status''"
    by (auto simp: delete_agent_def not_found_def split: if_splits)
  from del pres ns obtain reg2 items cr where
    reg2: "(case map_of ?reg1 k_agent_status of
                None \<Rightarrow> Inr ?reg1
              | Some status_map \<Rightarrow>
                  bindE (py_pop status_map ?k) (\<lambda>status_map'.
                  Inr (AList.update k_agent_status status_map' ?reg1))) = Inr reg2"
    and items: "py_items (dict_get (client_registry st) k_agent_map (PDict [])) = Inr items"
    and rc: "remove_clients (map fst (filter (\<lambda>(client_name, mapped_agent).
                                  mapped_agent = PStr agent_id) items)) (client_registry st)
               = (None, cr)"
    and st': "st' = save_client_registry
                            (save_registry (st\<lparr>registry := reg2, client_registry := cr\<rparr>))"
    by (auto simp: delete_agent_def Let_def split: sum.splits prod.splits option.splits)
  have items_eq: "items = agent_map_of st"
    using items
    by (cases "map_of (client_registry st) k_agent_map")
       (auto simp: dict_get_def agent_map_of_def agent_map_in_def split: pyval.splits)
  let ?to_remove = "map fst (filter (\<lambda>(client_name, mapped_agent).
                                  mapped_agent = PStr agent_id) items)"
  show "\<not> dict_has (registry st') (KStr agent_id)"
    using reg2 ns
    by (auto simp: st' dict_has_delete dict_has_update bindE_def
          split: option.splits sum.splits)
  show "\<not> dict_has (status_map_of st') (KStr agent_id)"
  proof (cases "map_of ?reg1 k_agent_status")
    case None
    with reg2 show ?thesis by (simp add: st' status_map_of_def dict_has_def)
  next
    case (Some sm)
    with reg2 obtain d where "sm = PDict d"
      and "reg2 = AList.update k_agent_status (PDict (AList.delete ?k d)) ?reg1"
      by (cases sm) (auto simp: bindE_def)
    then show ?thesis
      by (simp add: st' status_map_of_def AList.update_conv' dict_has_delete)
  qed
  from remove_clients_agent_map[OF rc]
  have sub: "set (agent_map_of st') \<subseteq> {p \<in> set items. fst p \<notin> set ?to_remove}"
    by (simp add: st' agent_map_of_def items_eq)
  show "\<forall>(client_name, mapped_agent) \<in> set (agent_map_of st').
            mapped_agent \<noteq> PStr agent_id"
  proof (clarify)
    fix client_name
    assume "(client_name, PStr agent_id) \<in> set (agent_map_of st')"
    with sub have "(client_name, PStr agent_id) \<in> set items"
      and "client_name \<notin> set ?to_remove" by auto
    then show False by force
  qed
  show "\<forall>(client_name, mapped_agent) \<in> set (agent_map_of st).
            mapped_agent = PStr agent_id \<longrightarrow> \<not> dict_has (client_registry st') client_name"
  proof (clarify)
    fix client_name
    assume "(client_name, PStr agent_id) \<in> set (agent_map_of st)"
      and h: "dict_has (client_registry st') client_name"
    then have "client_name \<in> set ?to_remove" unfolding items_eq by force
    from remove_clients_keys[OF rc this] h show False by (simp add: st')
  qed
next
  assume "wf_cache st \<and> agent_present st agent_id"
  then have wf: "wf_cache st" and pres: "dict_has (registry st) (KStr agent_id)"
    and ns: "agent_id \<noteq> ''agent_status''"
    by (simp_all add: agent_present_def)
  from wf_cacheD[OF wf] obtain sm am
    where sm: "map_of (registry st) k_agent_status = Some (PDict sm)"
      and am: "map_of (client_registry st) k_agent_map = Some (PDict am)"
    by blast
  let ?to_remove = "map fst (filter (\<lambda>(client_name, mapped_agent).
                                  mapped_agent = PStr agent_id) am)"
  from remove_clients_total[of "client_registry st" ?to_remove] am
  obtain cr where "remove_clients ?to_remove (client_registry st) = (None, cr)" by auto
  with pres ns sm am show "\<exists>b s. delete_agent st agent_id = (Inr (b, 200), s)"
    by (simp add: delete_agent_def AList.delete_conv' bindE_def dict_get_def)
qed


theorem delete_cascade_witness:
  "wf_cache cascade_state \<and> agent_present cascade_state ''A1''
   \<and> (\<exists>b s. delete_agent cascade_state ''A1'' = (Inr (b, 200), s)
        \<and> \<not> dict_has (registry s) (KStr ''A1'')
        \<and> \<not> dict_has (status_map_of s) (KStr ''A1'')
        \<and> (\<forall>(client_name, mapped_agent) \<in> set (agent_map_of s).
              mapped_agent \<noteq> PStr ''A1'')
        \<and> (\<forall>(client_name, mapped_agent) \<in> set (agent_map_of cascade_state).
              mapped_agent = PStr ''A1'' \<longrightarrow> \<not> dict_has (client_registry s) client_name))
   \<and> (KStr ''C1'', PStr ''A1'') \<in> set (agent_map_of cascade_state)"
proof -
  have h: "wf_cache cascade_state" "agent_present cascade_state ''A1''"
    "(KStr ''C1'', PStr ''A1'') \<in> set (agent_map_of cascade_state)"
    by (simp_all add: cascade_state_def alias_state_def initial_state_def wf_cache_def
          agent_present_def dict_has_def agent_map_of_def agent_map_in_def)
  from delete_cascade[of cascade_state "''A1''"] h(1,2)
  obtain b s where d: "delete_agent cascade_state ''A1'' = (Inr (b, 200), s)" by blast
  from delete_cascade[of cascade_state "''A1''" b s] d h show ?thesis by blast
qed

section \<open>The filters of the search\<close>

text \<open>
  C4, as stated: \<open>search_agents\<close> returns exactly the agents for which the query, when
  present, is a case-insensitive substring of the agent id, and each filter, when present,
  has a value among the agent's capabilities or tags. The code removes the white space
  around the query before the test (line 164): the query \<open>' GAM '\<close> returns the agent
  \<open>Gamma\<close>, although in lower case it is no substring of \<open>gamma\<close>.
\<close>

theorem search_trims_query:
  "search_agents lower_ascii strip_ascii search_state (Some '' GAM '') None None =
     Inr (PList [PDict [(KStr ''agent_id'', PStr ''Gamma''),
                          (KStr ''agent_url'', PStr ''http://c''),
                          (KStr ''api_url'', PNone),
                          (KStr ''alive'', PBool False),
                          (KStr ''assigned_to'', PNone),
                          (KStr ''last_update'', PNone),
                          (KStr ''capabilities'', PList [PStr ''q'']),
                          (KStr ''tags'', PList [PStr ''z'']),
                          (KStr ''description'', PStr [])]], 200)
   \<and> \<not> sublist (lower_ascii '' GAM '') (lower_ascii ''Gamma'')"
  by code_simp

text \<open>
  C4, amended: in a well-formed cache whose agents have string ids and list-valued
  \<open>capabilities\<close> and \<open>tags\<close>, \<open>search_agents\<close> returns status 200 and exactly the views
  of the agents, in directory order, that satisfy all three of: the query, with the white
  space around it removed, is absent, empty or a case-insensitive substring of the agent
  id; the capabilities filter is absent or empty, or one of its comma-separated values,
  with the white space around it removed, is among the agent's capabilities; the same
  for the tags filter and the agent's tags. An agent that matches the capabilities filter
  and fails the tags filter is left out. This holds whatever functions \<open>str.lower\<close> and
  \<open>str.strip\<close> are.
\<close>

theorem search_agents_filter:
  "wf_cache st \<and> agents_ok st \<longrightarrow>
     search_agents str_lower str_strip st q capabilities_filter tags_filter =
       Inr (PList (map (agent_view st)
                     (filter (\<lambda>k. query_matches str_lower str_strip q k
                                 \<and> filter_matches str_strip capabilities_filter
                                       (list_field st k ''capabilities'')
                                 \<and> filter_matches str_strip tags_filter
                                       (list_field st k ''tags''))
                        (agent_keys st))), 200)"
proof
  assume a: "wf_cache st \<and> agents_ok st"
  then have wf: "wf_cache st" by simp
  from a have ok: "\<forall>k \<in> set (map fst (registry st)). k \<noteq> k_agent_status \<longrightarrow>
           is_str_key k
           \<and> is_list (dict_get (status_obj_of st k) (KStr ''capabilities'') (PList []))
           \<and> is_list (dict_get (status_obj_of st k) (KStr ''tags'') (PList []))"
    by (simp add: agents_ok_def agent_keys_def)
  show "search_agents str_lower str_strip st q capabilities_filter tags_filter =
       Inr (PList (map (agent_view st)
                     (filter (\<lambda>k. query_matches str_lower str_strip q k
                                 \<and> filter_matches str_strip capabilities_filter
                                       (list_field st k ''capabilities'')
                                 \<and> filter_matches str_strip tags_filter
                                       (list_field st k ''tags''))
                        (agent_keys st))), 200)"
    unfolding search_agents_def Let_def search_loop_filter[OF wf ok] keeps_matches
    by (simp add: bindE_def agent_keys_def)
qed

lemma search_state_ok: "wf_cache search_state" "agents_ok search_state"
  by (simp_all add: wf_cache_def agents_ok_def agent_keys_def search_state_def
        initial_state_def status_obj_of_def dict_get_def)

lemma search_state_fields:
  "agent_keys search_state = [KStr ''alpha'', KStr ''beta'', KStr ''Gamma'']"
  "list_field search_state (KStr ''alpha'') ''capabilities'' = [PStr ''x'']"
  "list_field search_state (KStr ''alpha'') ''tags'' = [PStr ''z'']"
  "list_field search_state (KStr ''beta'') ''capabilities'' = [PStr ''y'']"
  "list_field search_state (KStr ''beta'') ''tags'' = [PStr ''w'']"
  "list_field search_state (KStr ''Gamma'') ''capabilities'' = [PStr ''q'']"
  "list_field search_state (KStr ''Gamma'') ''tags'' = [PStr ''z'']"
  by (simp_all add: agent_keys_def list_field_def search_state_def initial_state_def
        status_obj_of_def dict_get_def)

lemma example_filters:
  "filter_matches strip_ascii (Some ''x, y'') [PStr ''x'']"
  "filter_matches strip_ascii (Some ''x, y'') [PStr ''y'']"
  "\<not> filter_matches strip_ascii (Some ''x, y'') [PStr ''q'']"
  "filter_matches strip_ascii (Some ''z'') [PStr ''z'']"
  "\<not> filter_matches strip_ascii (Some ''z'') [PStr ''w'']"
  "filter_matches strip_ascii (Some []) xs"
  "filter_matches strip_ascii None xs"
  by (simp_all add: filter_matches_def strip_ascii_def ascii_space_def)

lemma example_queries:
  "query_matches lower_ascii strip_ascii None k"
  "query_matches lower_ascii strip_ascii (Some '' GAM '') (KStr ''Gamma'')"
  "\<not> query_matches lower_ascii strip_ascii (Some '' GAM '') (KStr ''alpha'')"
  "\<not> query_matches lower_ascii strip_ascii (Some '' GAM '') (KStr ''beta'')"
  by (simp add: query_matches_def lower_ascii_def strip_ascii_def) code_simp+

lemma alpha_view:
  "agent_view search_state (KStr ''alpha'') =
     PDict [(KStr ''agent_id'', PStr ''alpha''),
            (KStr ''agent_url'', PStr ''http://a''),
            (KStr ''api_url'', PNone),
            (KStr ''alive'', PBool False),
            (KStr ''assigned_to'', PNone),
            (KStr ''last_update'', PNone),
            (KStr ''capabilities'', PList [PStr ''x'']),
            (KStr ''tags'', PList [PStr ''z'']),
            (KStr ''description'', PStr [])]"
  by (simp add: agent_view_def build_agent_payload_def search_state_def initial_state_def
        dict_get_def bindE_def)

theorem search_agents_filter_witness:
  "wf_cache search_state \<and> agents_ok search_state
   \<and> search_agents lower_ascii strip_ascii search_state None (Some ''x, y'') (Some ''z'') =
       Inr (PList [PDict [(KStr ''agent_id'', PStr ''alpha''),
                          (KStr ''agent_url'', PStr ''http://a''),
                          (KStr ''api_url'', PNone),
                          (KStr ''alive'', PBool False),
                          (KStr ''assigned_to'', PNone),
                          (KStr ''last_update'', PNone),
                          (KStr ''capabilities'', PList [PStr ''x'']),
                          (KStr ''tags'', PList [PStr ''z'']),
                          (KStr ''description'', PStr [])]], 200)
   \<and> filter_matches strip_ascii (Some ''x, y'')
         (list_field search_state (KStr ''beta'') ''capabilities'')
   \<and> \<not> filter_matches strip_ascii (Some ''z'') (list_field search_state (KStr ''beta'') ''tags'')
   \<and> search_agents lower_ascii strip_ascii search_state (Some '' GAM '') (Some []) None =
       Inr (PList [agent_view search_state (KStr ''Gamma'')], 200)"
proof -
  note ok = search_state_ok
  from ok have c: "wf_cache search_state \<and> agents_ok search_state" by (intro conjI)
  have a: "search_agents lower_ascii strip_ascii search_state None (Some ''x, y'') (Some ''z'') =
       Inr (PList [agent_view search_state (KStr ''alpha'')], 200)"
    unfolding search_agents_filter[of search_state lower_ascii strip_ascii None
                "Some ''x, y''" "Some ''z''", THEN mp, OF c]
    by (simp add: search_state_fields example_filters example_queries)
  have b: "search_agents lower_ascii strip_ascii search_state (Some '' GAM '') (Some []) None =
       Inr (PList [agent_view search_state (KStr ''Gamma'')], 200)"
    unfolding search_agents_filter[of search_state lower_ascii strip_ascii "Some '' GAM ''"
                "Some []" None, THEN mp, OF c]
    by (simp add: search_state_fields example_queries example_filters)
  have f: "filter_matches strip_ascii (Some ''x, y'')
             (list_field search_state (KStr ''beta'') ''capabilities'')"
    "\<not> filter_matches strip_ascii (Some ''z'') (list_field search_state (KStr ''beta'') ''tags'')"
    by (simp_all add: search_state_fields example_filters)
  from ok a[unfolded alpha_view] b f show ?thesis by (intro conjI)
qed

section \<open>Partial merge of a status update\<close>

text \<open>
  C5. \<open>update_agent_status\<close> answers 404 and changes nothing when the agent is not in the
  directory. For a present agent of a well-formed cache and a request object it answers
  200 with the view that \<open>get_agent\<close> then returns; every field of the status object
  that is not in the request keeps its value, except \<open>last_update\<close>, which is set to the
  time of the call; every one of \<open>alive\<close>, \<open>assigned_to\<close>, \<open>capabilities\<close>, \<open>tags\<close> and
  \<open>description\<close> that is in the request is stored (\<open>alive\<close> as a truth value), where a
  \<open>capabilities\<close> or \<open>tags\<close> that is not a list and a \<open>description\<close> that is not a string
  are ignored and the stored value is kept. In particular after the request
  \<open>{alive: true}\<close> the view shows \<open>alive\<close> true and the \<open>capabilities\<close>, \<open>tags\<close> and
  \<open>description\<close> it showed before.
\<close>

theorem update_status_partial_merge:
  "(\<not> agent_present st aid \<longrightarrow>
      update_agent_status st aid data now = (Inr not_found, st))
   \<and> (wf_cache st \<and> agent_present st aid \<longrightarrow>
      (\<exists>st' payload.
         update_agent_status st aid (PDict d) now =
           (Inr (PDict [(KStr ''status'', PStr ''updated''), (KStr ''agent'', payload)], 200),
            st')
       \<and> get_agent st' aid = Inr (payload, 200)
       \<and> (\<forall>f. f \<noteq> KStr ''last_update'' \<and> \<not> dict_has d f \<longrightarrow>
              map_of (status_obj_of st' (KStr aid)) f = map_of (status_obj_of st (KStr aid)) f)
       \<and> map_of (status_obj_of st' (KStr aid)) (KStr ''last_update'') = Some (PStr now)
       \<and> (\<forall>v. map_of d (KStr ''alive'') = Some v \<longrightarrow>
              map_of (status_obj_of st' (KStr aid)) (KStr ''alive'')
                = Some (PBool (py_truthy v)))
       \<and> (\<forall>v. map_of d (KStr ''assigned_to'') = Some v \<longrightarrow>
              map_of (status_obj_of st' (KStr aid)) (KStr ''assigned_to'') = Some v)
       \<and> (\<forall>v. map_of d (KStr ''capabilities'') = Some v \<longrightarrow>
              map_of (status_obj_of st' (KStr aid)) (KStr ''capabilities'')
                = (if is_list v then Some v
                   else map_of (status_obj_of st (KStr aid)) (KStr ''capabilities'')))
       \<and> (\<forall>v. map_of d (KStr ''tags'') = Some v \<longrightarrow>
              map_of (status_obj_of st' (KStr aid)) (KStr ''tags'')
                = (if is_list v then Some v
                   else map_of (status_obj_of st (KStr aid)) (KStr ''tags'')))
       \<and> (\<forall>v. map_of d (KStr ''description'') = Some v \<longrightarrow>
              map_of (status_obj_of st' (KStr aid)) (KStr ''description'')
                = (if is_str v then Some v
                   else map_of (status_obj_of st (KStr aid)) (KStr ''description'')))))
   \<and> (wf_cache st \<and> agent_present st aid \<longrightarrow>
      (\<exists>r st'.
         update_agent_status st aid (PDict [(KStr ''alive'', PBool True)]) now = (r, st')
       \<and> view_field (get_agent st' aid) ''alive'' = Some (PBool True)
       \<and> view_field (get_agent st' aid) ''capabilities''
             = view_field (get_agent st aid) ''capabilities''
       \<and> view_field (get_agent st' aid) ''tags'' = view_field (get_agent st aid) ''tags''
       \<and> view_field (get_agent st' aid) ''description''
             = view_field (get_agent st aid) ''description''))"
proof (intro conjI impI)
  assume "\<not> agent_present st aid"
  then have "(\<not> dict_has (registry st) (KStr aid) \<or> aid = ''agent_status'') = True"
    by (simp add: agent_present_def)
  then show "update_agent_status st aid data now = (Inr not_found, st)"
    unfolding update_agent_status_def by simp
next
  assume a: "wf_cache st \<and> agent_present st aid"
  then have wf: "wf_cache st" and p: "agent_present st aid" by simp_all
  from update_agent_status_wf[OF wf p, of d now] obtain st' payload where
    u: "update_agent_status st aid (PDict d) now =
         (Inr (PDict [(KStr ''status'', PStr ''updated''), (KStr ''agent'', payload)], 200), st')"
    and g: "get_agent st' aid = Inr (payload, 200)"
    and so: "status_obj_of st' (KStr aid) = partial_merge d now (status_obj_of st (KStr aid))"
    by blast
  show "\<exists>st' payload.
         update_agent_status st aid (PDict d) now =
           (Inr (PDict [(KStr ''status'', PStr ''updated''), (KStr ''agent'', payload)], 200),
            st')
       \<and> get_agent st' aid = Inr (payload, 200)
       \<and> (\<forall>f. f \<noteq> KStr ''last_update'' \<and> \<not> dict_has d f \<longrightarrow>
              map_of (status_obj_of st' (KStr aid)) f = map_of (status_obj_of st (KStr aid)) f)
       \<and> map_of (status_obj_of st' (KStr aid)) (KStr ''last_update'') = Some (PStr now)
       \<and> (\<forall>v. map_of d (KStr ''alive'') = Some v \<longrightarrow>
              map_of (status_obj_of st' (KStr aid)) (KStr ''alive'')
                = Some (PBool (py_truthy v)))
       \<and> (\<forall>v. map_of d (KStr ''assigned_to'') = Some v \<longrightarrow>
              map_of (status_obj_of st' (KStr aid)) (KStr ''assigned_to'') = Some v)
       \<and> (\<forall>v. map_of d (KStr ''capabilities'') = Some v \<longrightarrow>
              map_of (status_obj_of st' (KStr aid)) (KStr ''capabilities'')
                = (if is_list v then Some v
                   else map_of (status_obj_of st (KStr aid)) (KStr ''capabilities'')))
       \<and> (\<forall>v. map_of d (KStr ''tags'') = Some v \<longrightarrow>
              map_of (status_obj_of st' (KStr aid)) (KStr ''tags'')
                = (if is_list v then Some v
                   else map_of (status_obj_of st (KStr aid)) (KStr ''tags'')))
       \<and> (\<forall>v. map_of d (KStr ''description'') = Some v \<longrightarrow>
              map_of (status_obj_of st' (KStr aid)) (KStr ''description'')
                = (if is_str v then Some v
                   else map_of (status_obj_of st (KStr aid)) (KStr ''description'')))"
    using u g unfolding so[symmetric]
    apply (intro exI[of _ st'] exI[of _ payload])
    apply (simp only: so)
    apply (intro conjI allI impI refl)
          apply (simp add: map_of_partial_merge_absent)
         apply (rule map_of_partial_merge_last_update)
        apply (erule map_of_partial_merge_alive)
       apply (erule map_of_partial_merge_assigned_to)
      apply (erule map_of_partial_merge_capabilities)
     apply (erule map_of_partial_merge_tags)
    apply (erule map_of_partial_merge_description)
    done
next
  assume a: "wf_cache st \<and> agent_present st aid"
  then have wf: "wf_cache st" and p: "agent_present st aid" by simp_all
  let ?d = "[(KStr ''alive'', PBool True)]"
  from update_agent_status_wf[OF wf p, of ?d now] obtain st' payload where
    u: "update_agent_status st aid (PDict ?d) now =
         (Inr (PDict [(KStr ''status'', PStr ''updated''), (KStr ''agent'', payload)], 200), st')"
    and wf': "wf_cache st'" and p': "agent_present st' aid"
    and so: "status_obj_of st' (KStr aid) = partial_merge ?d now (status_obj_of st (KStr aid))"
    by blast
  have same: "dict_get (status_obj_of st' (KStr aid)) (KStr f) dflt
                = dict_get (status_obj_of st (KStr aid)) (KStr f) dflt"
    if "f \<noteq> ''last_update''" "f \<noteq> ''alive''" for f dflt
    unfolding so using that
    by (intro dict_get_cong_map_of map_of_partial_merge_absent) (simp_all add: dict_has_def)
  have alive: "dict_get (status_obj_of st' (KStr aid)) (KStr ''alive'') (PBool False) = PBool True"
    unfolding so using map_of_partial_merge_alive[of ?d "PBool True" now]
    by (simp add: dict_get_def)
  show "\<exists>r st'.
         update_agent_status st aid (PDict [(KStr ''alive'', PBool True)]) now = (r, st')
       \<and> view_field (get_agent st' aid) ''alive'' = Some (PBool True)
       \<and> view_field (get_agent st' aid) ''capabilities''
             = view_field (get_agent st aid) ''capabilities''
       \<and> view_field (get_agent st' aid) ''tags'' = view_field (get_agent st aid) ''tags''
       \<and> view_field (get_agent st' aid) ''description''
             = view_field (get_agent st aid) ''description''"
    using u
    by (intro exI[of _ st'] exI conjI)
       (simp_all add: view_field_get_agent[OF wf p] view_field_get_agent[OF wf' p'] same alive)
qed


theorem update_status_partial_merge_witness:
  "wf_cache merge_state \<and> agent_present merge_state ''A1''
   \<and> \<not> agent_present merge_state ''zz''
   \<and> update_agent_status merge_state ''zz'' PNone ''t1'' = (Inr not_found, merge_state)
   \<and> (\<exists>r st'.
         update_agent_status merge_state ''A1'' (PDict [(KStr ''alive'', PBool True)]) ''t1''
           = (r, st')
       \<and> view_field (get_agent st' ''A1'') ''alive'' = Some (PBool True)
       \<and> view_field (get_agent st' ''A1'') ''capabilities'' = Some (PList [PStr ''route''])
       \<and> view_field (get_agent st' ''A1'') ''tags'' = Some (PList [PStr ''transit''])
       \<and> view_field (get_agent st' ''A1'') ''description'' = Some (PStr ''planner'')
       \<and> map_of (status_obj_of st' (KStr ''A1'')) (KStr ''last_update'') = Some (PStr ''t1'')
       \<and> map_of (status_obj_of st' (KStr ''A1'')) (KStr ''api_url'') = Some (PStr ''W''))
   \<and> (\<exists>r st'.
         update_agent_status merge_state ''A1''
           (PDict [(KStr ''capabilities'', PList [PStr ''fly'']),
                   (KStr ''tags'', PStr ''oops''),
                   (KStr ''description'', PStr ''router'')]) ''t2'' = (r, st')
       \<and> map_of (status_obj_of st' (KStr ''A1'')) (KStr ''capabilities'')
             = Some (PList [PStr ''fly''])
       \<and> map_of (status_obj_of st' (KStr ''A1'')) (KStr ''tags'')
             = Some (PList [PStr ''transit''])
       \<and> map_of (status_obj_of st' (KStr ''A1'')) (KStr ''description'')
             = Some (PStr ''router'')
       \<and> map_of (status_obj_of st' (KStr ''A1'')) (KStr ''alive'') = Some (PBool False))"
proof -
  have h: "wf_cache merge_state" "agent_present merge_state ''A1''"
    "\<not> agent_present merge_state ''zz''"
    by (simp_all add: merge_state_def initial_state_def wf_cache_def agent_present_def
          dict_has_def)
  have v: "view_field (get_agent merge_state ''A1'') ''capabilities''
             = Some (PList [PStr ''route''])"
    "view_field (get_agent merge_state ''A1'') ''tags'' = Some (PList [PStr ''transit''])"
    "view_field (get_agent merge_state ''A1'') ''description'' = Some (PStr ''planner'')"
    by (simp_all add: view_field_def get_agent_def build_agent_payload_def merge_state_def
          initial_state_def dict_has_def dict_get_def bindE_def)
  have m: "map_of (status_obj_of merge_state (KStr ''A1'')) (KStr ''api_url'')
             = Some (PStr ''W'')"
    by (simp add: status_obj_of_def merge_state_def initial_state_def)
  have nd: "KStr ''api_url'' \<noteq> KStr ''last_update''
            \<and> \<not> dict_has [(KStr ''alive'', PBool True)] (KStr ''api_url'')"
    by (simp add: dict_has_def)
  note t = update_status_partial_merge[of merge_state "''A1''" PNone "''t1''"
             "[(KStr ''alive'', PBool True)]"]
  from t h obtain st' payload where
    u: "update_agent_status merge_state ''A1'' (PDict [(KStr ''alive'', PBool True)]) ''t1'' =
           (Inr (PDict [(KStr ''status'', PStr ''updated''), (KStr ''agent'', payload)], 200),
            st')"
    and fr: "\<forall>f. f \<noteq> KStr ''last_update'' \<and> \<not> dict_has [(KStr ''alive'', PBool True)] f \<longrightarrow>
              map_of (status_obj_of st' (KStr ''A1'')) f
                = map_of (status_obj_of merge_state (KStr ''A1'')) f"
    and lu: "map_of (status_obj_of st' (KStr ''A1'')) (KStr ''last_update'') = Some (PStr ''t1'')"
    by blast
  from fr nd m have api: "map_of (status_obj_of st' (KStr ''A1'')) (KStr ''api_url'')
             = Some (PStr ''W'')" by metis
  from t h obtain r st'' where
    u3: "update_agent_status merge_state ''A1'' (PDict [(KStr ''alive'', PBool True)]) ''t1''
           = (r, st'')"
    and w: "view_field (get_agent st'' ''A1'') ''alive'' = Some (PBool True)"
      "view_field (get_agent st'' ''A1'') ''capabilities''
             = view_field (get_agent merge_state ''A1'') ''capabilities''"
      "view_field (get_agent st'' ''A1'') ''tags'' = view_field (get_agent merge_state ''A1'') ''tags''"
      "view_field (get_agent st'' ''A1'') ''description''
             = view_field (get_agent merge_state ''A1'') ''description''"
    by blast
  from u u3 have same: "st'' = st'" by simp
  from update_status_partial_merge[of merge_state "''zz''" PNone "''t1''"] h(3)
  have nf: "update_agent_status merge_state ''zz'' PNone ''t1'' = (Inr not_found, merge_state)"
    by blast
  let ?d2 = "[(KStr ''capabilities'', PList [PStr ''fly'']),
              (KStr ''tags'', PStr ''oops''),
              (KStr ''description'', PStr ''router'')]"
  have d2: "map_of ?d2 (KStr ''capabilities'') = Some (PList [PStr ''fly''])"
    "map_of ?d2 (KStr ''tags'') = Some (PStr ''oops'')"
    "map_of ?d2 (KStr ''description'') = Some (PStr ''router'')"
    "KStr ''alive'' \<noteq> KStr ''last_update'' \<and> \<not> dict_has ?d2 (KStr ''alive'')"
    by (simp_all add: dict_has_def)
  have old: "map_of (status_obj_of merge_state (KStr ''A1'')) (KStr ''tags'')
               = Some (PList [PStr ''transit''])"
    "map_of (status_obj_of merge_state (KStr ''A1'')) (KStr ''alive'') = Some (PBool False)"
    by (simp_all add: status_obj_of_def merge_state_def initial_state_def)
  note b2 = update_status_partial_merge[of merge_state "''A1''" PNone "''t2''" ?d2,
              THEN conjunct2, THEN conjunct1, THEN mp, OF conjI[OF h(1) h(2)]]
  from b2 obtain st2 payload2 where
    u2: "update_agent_status merge_state ''A1'' (PDict ?d2) ''t2'' =
           (Inr (PDict [(KStr ''status'', PStr ''updated''), (KStr ''agent'', payload2)], 200),
            st2)"
    and "get_agent st2 ''A1'' = Inr (payload2, 200)"
    and fr2: "\<forall>f. f \<noteq> KStr ''last_update'' \<and> \<not> dict_has ?d2 f \<longrightarrow>
              map_of (status_obj_of st2 (KStr ''A1'')) f
                = map_of (status_obj_of merge_state (KStr ''A1'')) f"
    and "map_of (status_obj_of st2 (KStr ''A1'')) (KStr ''last_update'') = Some (PStr ''t2'')"
    and "\<forall>v. map_of ?d2 (KStr ''alive'') = Some v \<longrightarrow>
              map_of (status_obj_of st2 (KStr ''A1'')) (KStr ''alive'')
                = Some (PBool (py_truthy v))"
    and "\<forall>v. map_of ?d2 (KStr ''assigned_to'') = Some v \<longrightarrow>
              map_of (status_obj_of st2 (KStr ''A1'')) (KStr ''assigned_to'') = Some v"
    and c2: "\<forall>v. map_of ?d2 (KStr ''capabilities'') = Some v \<longrightarrow>
              map_of (status_obj_of st2 (KStr ''A1'')) (KStr ''capabilities'')
                = (if is_list v then Some v
                   else map_of (status_obj_of merge_state (KStr ''A1'')) (KStr ''capabilities''))"
    and t2: "\<forall>v. map_of ?d2 (KStr ''tags'') = Some v \<longrightarrow>
              map_of (status_obj_of st2 (KStr ''A1'')) (KStr ''tags'')
                = (if is_list v then Some v
                   else map_of (status_obj_of merge_state (KStr ''A1'')) (KStr ''tags''))"
    and e2: "\<forall>v. map_of ?d2 (KStr ''description'') = Some v \<longrightarrow>
              map_of (status_obj_of st2 (KStr ''A1'')) (KStr ''description'')
                = (if is_str v then Some v
                   else map_of (status_obj_of merge_state (KStr ''A1'')) (KStr ''description''))"
    by (elim exE conjE)
  from c2[rule_format, OF d2(1)]
  have r1: "map_of (status_obj_of st2 (KStr ''A1'')) (KStr ''capabilities'')
              = Some (PList [PStr ''fly''])" by simp
  from t2[rule_format, OF d2(2)] old(1)
  have r2: "map_of (status_obj_of st2 (KStr ''A1'')) (KStr ''tags'')
              = Some (PList [PStr ''transit''])" by simp
  from e2[rule_format, OF d2(3)]
  have r3: "map_of (status_obj_of st2 (KStr ''A1'')) (KStr ''description'')
              = Some (PStr ''router'')" by simp
  from fr2[rule_format, OF d2(4)] old(2)
  have r4: "map_of (status_obj_of st2 (KStr ''A1'')) (KStr ''alive'') = Some (PBool False)"
    by simp
  have second: "\<exists>r st'.
         update_agent_status merge_state ''A1'' (PDict ?d2) ''t2'' = (r, st')
       \<and> map_of (status_obj_of st' (KStr ''A1'')) (KStr ''capabilities'')
             = Some (PList [PStr ''fly''])
       \<and> map_of (status_obj_of st' (KStr ''A1'')) (KStr ''tags'')
             = Some (PList [PStr ''transit''])
       \<and> map_of (status_obj_of st' (KStr ''A1'')) (KStr ''description'')
             = Some (PStr ''router'')
       \<and> map_of (status_obj_of st' (KStr ''A1'')) (KStr ''alive'') = Some (PBool False)"
    using u2 r1 r2 r3 r4 by (intro exI[of _ st2] exI conjI)
  have first: "\<exists>r st'.
         update_agent_status merge_state ''A1'' (PDict [(KStr ''alive'', PBool True)]) ''t1''
           = (r, st')
       \<and> view_field (get_agent st' ''A1'') ''alive'' = Some (PBool True)
       \<and> view_field (get_agent st' ''A1'') ''capabilities'' = Some (PList [PStr ''route''])
       \<and> view_field (get_agent st' ''A1'') ''tags'' = Some (PList [PStr ''transit''])
       \<and> view_field (get_agent st' ''A1'') ''description'' = Some (PStr ''planner'')
       \<and> map_of (status_obj_of st' (KStr ''A1'')) (KStr ''last_update'') = Some (PStr ''t1'')
       \<and> map_of (status_obj_of st' (KStr ''A1'')) (KStr ''api_url'') = Some (PStr ''W'')"
    using u w[unfolded same v] lu api by (intro exI[of _ st'] exI conjI)
  from h nf first second show ?thesis by (intro conjI)
qed

section \<open>Validation and effect of a registration\<close>

text \<open>
  C6, as stated: \<open>register\<close> fails with \<open>InvalidInput\<close> exactly when \<open>agent_id\<close> or
  \<open>agent_url\<close> is missing or empty. The test of line 257 looks only at the presence of the
  two keys: a request with the agent id \<open>a1\<close> and an empty \<open>agent_url\<close> is accepted and
  stored.
\<close>

theorem register_accepts_empty_url:
  "register initial_state
     (PDict [(KStr ''agent_id'', PStr ''a1''), (KStr ''agent_url'', PStr [])]) ''t1''
   = (Inr (PDict [(KStr ''status'', PStr ''success''),
                  (KStr ''message'', PStr ''Agent a1 registered'')], 200),
      initial_state
        \<lparr>registry :=
           [(k_agent_status,
             PDict [(KStr ''a1'', PDict [(KStr ''alive'', PBool False),
                                         (KStr ''assigned_to'', PNone),
                                         (KStr ''api_url'', PNone),
                                         (KStr ''description'', PStr []),
                                         (KStr ''last_update'', PStr ''t1'')])]),
            (KStr ''a1'', PStr [])]\<rparr>)"
  by (simp add: register_def missing_fields_def initial_state_def save_registry_def
        dict_has_def dict_index_def dict_get_def bindE_def)

text \<open>
  C6, amended: \<open>register\<close> answers 400 and changes nothing when the request body is
  absent or empty or lacks the key \<open>agent_id\<close> or the key \<open>agent_url\<close>; a request with both
  keys whose \<open>agent_id\<close> is a non-empty string is never answered 400, whatever its
  \<open>agent_url\<close>, the empty string included; and in a well-formed cache such a request,
  when its \<open>agent_id\<close> is not the reserved name, succeeds and stores the URL and a status
  object with \<open>alive\<close> false, \<open>assigned_to\<close> null, the request's \<open>api_url\<close> and
  \<open>description\<close> (null and empty when omitted) and \<open>last_update\<close> set to the time of the
  call. Nothing is said of a request whose \<open>agent_id\<close> is empty.
\<close>

theorem register_invalid_input:
  "(\<not> py_truthy data \<longrightarrow> register st data now = (Inr bad_request, st))
   \<and> (d = [] \<or> \<not> dict_has d (KStr ''agent_id'') \<or> \<not> dict_has d (KStr ''agent_url'') \<longrightarrow>
        register st (PDict d) now = (Inr bad_request, st))
   \<and> (map_of d (KStr ''agent_id'') = Some (PStr aid) \<and> aid \<noteq> []
        \<and> dict_has d (KStr ''agent_url'') \<longrightarrow>
        (\<forall>body st'. register st (PDict d) now \<noteq> (Inr (body, 400), st')))
   \<and> (wf_cache st \<and> map_of d (KStr ''agent_id'') = Some (PStr aid) \<and> aid \<noteq> []
        \<and> aid \<noteq> ''agent_status'' \<and> map_of d (KStr ''agent_url'') = Some u \<longrightarrow>
        (\<exists>body st'. register st (PDict d) now = (Inr (body, 200), st')
           \<and> map_of (registry st') (KStr aid) = Some u
           \<and> map_of (status_map_of st') (KStr aid) =
               Some (PDict [(KStr ''alive'', PBool False),
                            (KStr ''assigned_to'', PNone),
                            (KStr ''api_url'', dict_get d (KStr ''api_url'') PNone),
                            (KStr ''description'', dict_get d (KStr ''description'') (PStr [])),
                            (KStr ''last_update'', PStr now)])))"
proof (intro conjI impI)
  assume "\<not> py_truthy data"
  then show "register st data now = (Inr bad_request, st)"
    by (simp add: register_def missing_fields_def)
next
  assume "d = [] \<or> \<not> dict_has d (KStr ''agent_id'') \<or> \<not> dict_has d (KStr ''agent_url'')"
  then show "register st (PDict d) now = (Inr bad_request, st)"
    by (rule register_refused)
next
  assume a: "map_of d (KStr ''agent_id'') = Some (PStr aid) \<and> aid \<noteq> []
        \<and> dict_has d (KStr ''agent_url'')"
  then have "\<not> (d = [] \<or> \<not> dict_has d (KStr ''agent_id'') \<or> \<not> dict_has d (KStr ''agent_url''))"
    by (auto simp: dict_has_map_of)
  from register_not_400[OF this]
  show "\<forall>body st'. register st (PDict d) now \<noteq> (Inr (body, 400), st')"
    by blast
next
  assume a: "wf_cache st \<and> map_of d (KStr ''agent_id'') = Some (PStr aid) \<and> aid \<noteq> []
        \<and> aid \<noteq> ''agent_status'' \<and> map_of d (KStr ''agent_url'') = Some u"
  then have "\<exists>body st'. register st (PDict d) now = (Inr (body, 200), st')
     \<and> wf_cache st' \<and> agent_present st' aid
     \<and> map_of (registry st') (KStr aid) = Some u
     \<and> map_of (status_map_of st') (KStr aid) = Some (PDict (fresh_status d now))
     \<and> status_obj_of st' (KStr aid) = fresh_status d now
     \<and> (\<forall>other. other \<noteq> aid \<longrightarrow> get_agent st' other = get_agent st other)"
    by (intro register_effect) simp_all
  then show "\<exists>body st'. register st (PDict d) now = (Inr (body, 200), st')
           \<and> map_of (registry st') (KStr aid) = Some u
           \<and> map_of (status_map_of st') (KStr aid) =
               Some (PDict [(KStr ''alive'', PBool False),
                            (KStr ''assigned_to'', PNone),
                            (KStr ''api_url'', dict_get d (KStr ''api_url'') PNone),
                            (KStr ''description'', dict_get d (KStr ''description'') (PStr [])),
                            (KStr ''last_update'', PStr now)])"
    unfolding fresh_status_def by blast
qed

theorem register_invalid_input_witness:
  "\<not> py_truthy PNone
   \<and> register initial_state PNone ''t1'' = (Inr bad_request, initial_state)
   \<and> \<not> dict_has [(KStr ''agent_id'', PStr ''a1'')] (KStr ''agent_url'')
   \<and> register initial_state (PDict [(KStr ''agent_id'', PStr ''a1'')]) ''t1''
       = (Inr bad_request, initial_state)
   \<and> wf_cache initial_state
   \<and> map_of [(KStr ''agent_id'', PStr ''a1''), (KStr ''agent_url'', PStr [])]
         (KStr ''agent_id'') = Some (PStr ''a1'')
   \<and> ''a1'' \<noteq> [] \<and> ''a1'' \<noteq> ''agent_status''
   \<and> map_of [(KStr ''agent_id'', PStr ''a1''), (KStr ''agent_url'', PStr [])]
         (KStr ''agent_url'') = Some (PStr [])
   \<and> (\<exists>body st'.
         register initial_state
           (PDict [(KStr ''agent_id'', PStr ''a1''), (KStr ''agent_url'', PStr [])])
           ''t1'' = (Inr (body, 200), st')
       \<and> map_of (registry st') (KStr ''a1'') = Some (PStr [])
       \<and> map_of (status_map_of st') (KStr ''a1'') =
           Some (PDict [(KStr ''alive'', PBool False),
                        (KStr ''assigned_to'', PNone),
                        (KStr ''api_url'', PNone),
                        (KStr ''description'', PStr []),
                        (KStr ''last_update'', PStr ''t1'')]))"
proof -
  let ?d = "[(KStr ''agent_id'', PStr ''a1''), (KStr ''agent_url'', PStr [])]"
  let ?m = "[(KStr ''agent_id'', PStr ''a1'')]"
  have n: "\<not> py_truthy PNone" by simp
  have m: "\<not> dict_has ?m (KStr ''agent_url'')" by (simp add: dict_has_def)
  have h: "wf_cache initial_state" "map_of ?d (KStr ''agent_id'') = Some (PStr ''a1'')"
    "''a1'' \<noteq> []" "''a1'' \<noteq> ''agent_status''"
    "map_of ?d (KStr ''agent_url'') = Some (PStr [])"
    by (simp_all add: wf_cache_def initial_state_def)
  have g: "dict_get ?d (KStr ''api_url'') PNone = PNone"
    "dict_get ?d (KStr ''description'') (PStr []) = PStr []"
    by (simp_all add: dict_get_def)
  from h have c: "wf_cache initial_state \<and> map_of ?d (KStr ''agent_id'') = Some (PStr ''a1'')
        \<and> ''a1'' \<noteq> [] \<and> ''a1'' \<noteq> ''agent_status''
        \<and> map_of ?d (KStr ''agent_url'') = Some (PStr [])"
    by (intro conjI)
  have a: "register initial_state PNone ''t1'' = (Inr bad_request, initial_state)"
    by (rule register_invalid_input[of PNone initial_state "''t1''", THEN conjunct1, THEN mp,
          OF n])
  from m have m': "?m = [] \<or> \<not> dict_has ?m (KStr ''agent_id'')
                   \<or> \<not> dict_has ?m (KStr ''agent_url'')" by (intro disjI2)
  have b: "register initial_state (PDict ?m) ''t1'' = (Inr bad_request, initial_state)"
    by (rule register_invalid_input[of PNone initial_state "''t1''" ?m,
          THEN conjunct2, THEN conjunct1, THEN mp, OF m'])
  note s = register_invalid_input[of PNone initial_state "''t1''" ?d "''a1''" "PStr []",
             THEN conjunct2, THEN conjunct2, THEN conjunct2, THEN mp, OF c, unfolded g]
  from n a m b h s show ?thesis by (intro conjI)
qed

section \<open>Registering an agent again\<close>

text \<open>
  C7, as stated: registering a present id again leaves \<open>capabilities\<close> and \<open>tags\<close> as
  they were. Line 270 assigns a new status object with five keys, so both are gone: for
  the agent \<open>A1\<close> with capabilities \<open>[route]\<close> and tags \<open>[transit]\<close> the view after the
  second registration shows two empty lists.
\<close>

theorem register_again_drops_capabilities:
  "view_field (get_agent merge_state ''A1'') ''capabilities'' = Some (PList [PStr ''route''])
   \<and> view_field (get_agent merge_state ''A1'') ''tags'' = Some (PList [PStr ''transit''])
   \<and> view_field
         (get_agent
            (snd (register merge_state
                    (PDict [(KStr ''agent_id'', PStr ''A1''), (KStr ''agent_url'', PStr ''U'')])
                    ''t1''))
            ''A1'') ''capabilities'' = Some (PList [])
   \<and> view_field
         (get_agent
            (snd (register merge_state
                    (PDict [(KStr ''agent_id'', PStr ''A1''), (KStr ''agent_url'', PStr ''U'')])
                    ''t1''))
            ''A1'') ''tags'' = Some (PList [])"
  by (simp add: register_def missing_fields_def merge_state_def initial_state_def
        save_registry_def get_agent_def build_agent_payload_def view_field_def
        dict_has_def dict_index_def dict_get_def bindE_def)

text \<open>
  C7, amended: in a well-formed cache, registering a present id again succeeds and
  replaces the whole record: the view that \<open>get_agent\<close> then returns has the request's
  \<open>agent_url\<close>, \<open>api_url\<close> and \<open>description\<close>, \<open>alive\<close> false, \<open>assigned_to\<close> null,
  \<open>last_update\<close> the time of the call, and empty \<open>capabilities\<close> and \<open>tags\<close>; the view
  of every other id is unchanged.
\<close>

theorem register_again_replaces_record:
  "wf_cache st \<and> agent_present st aid \<and> map_of d (KStr ''agent_id'') = Some (PStr aid)
     \<and> map_of d (KStr ''agent_url'') = Some u \<longrightarrow>
   (\<exists>body st'. register st (PDict d) now = (Inr (body, 200), st')
      \<and> get_agent st' aid =
          Inr (PDict [(KStr ''agent_id'', PStr aid),
                      (KStr ''agent_url'', u),
                      (KStr ''api_url'', dict_get d (KStr ''api_url'') PNone),
                      (KStr ''alive'', PBool False),
                      (KStr ''assigned_to'', PNone),
                      (KStr ''last_update'', PStr now),
                      (KStr ''capabilities'', PList []),
                      (KStr ''tags'', PList []),
                      (KStr ''description'', dict_get d (KStr ''description'') (PStr []))],
               200)
      \<and> (\<forall>other. other \<noteq> aid \<longrightarrow> get_agent st' other = get_agent st other))"
proof
  assume a: "wf_cache st \<and> agent_present st aid \<and> map_of d (KStr ''agent_id'') = Some (PStr aid)
     \<and> map_of d (KStr ''agent_url'') = Some u"
  then have ns: "aid \<noteq> ''agent_status''" by (simp add: agent_present_def)
  from a ns have "\<exists>body st'. register st (PDict d) now = (Inr (body, 200), st')
     \<and> wf_cache st' \<and> agent_present st' aid
     \<and> map_of (registry st') (KStr aid) = Some u
     \<and> map_of (status_map_of st') (KStr aid) = Some (PDict (fresh_status d now))
     \<and> status_obj_of st' (KStr aid) = fresh_status d now
     \<and> (\<forall>other. other \<noteq> aid \<longrightarrow> get_agent st' other = get_agent st other)"
    by (intro register_effect) simp_all
  then obtain body st' where r: "register st (PDict d) now = (Inr (body, 200), st')"
    and wf': "wf_cache st'" and p': "agent_present st' aid"
    and u': "map_of (registry st') (KStr aid) = Some u"
    and so': "status_obj_of st' (KStr aid) = fresh_status d now"
    and fr: "\<forall>other. other \<noteq> aid \<longrightarrow> get_agent st' other = get_agent st other"
    by blast
  from get_agent_wf[OF wf' p'] build_agent_payload_wf[OF wf', of "KStr aid"] u'
  have "get_agent st' aid =
          Inr (PDict [(KStr ''agent_id'', PStr aid),
                      (KStr ''agent_url'', u),
                      (KStr ''api_url'', dict_get d (KStr ''api_url'') PNone),
                      (KStr ''alive'', PBool False),
                      (KStr ''assigned_to'', PNone),
                      (KStr ''last_update'', PStr now),
                      (KStr ''capabilities'', PList []),
                      (KStr ''tags'', PList []),
                      (KStr ''description'', dict_get d (KStr ''description'') (PStr []))],
               200)"
    by (auto simp: so' fresh_status_def dict_get_def)
  with r fr show "\<exists>body st'. register st (PDict d) now = (Inr (body, 200), st')
      \<and> get_agent st' aid =
          Inr (PDict [(KStr ''agent_id'', PStr aid),
                      (KStr ''agent_url'', u),
                      (KStr ''api_url'', dict_get d (KStr ''api_url'') PNone),
                      (KStr ''alive'', PBool False),
                      (KStr ''assigned_to'', PNone),
                      (KStr ''last_update'', PStr now),
                      (KStr ''capabilities'', PList []),
                      (KStr ''tags'', PList []),
                      (KStr ''description'', dict_get d (KStr ''description'') (PStr []))],
               200)
      \<and> (\<forall>other. other \<noteq> aid \<longrightarrow> get_agent st' other = get_agent st other)"
    by blast
qed

theorem register_again_replaces_record_witness:
  "wf_cache merge_state \<and> agent_present merge_state ''A1''
   \<and> map_of [(KStr ''agent_id'', PStr ''A1''), (KStr ''agent_url'', PStr ''U2''),
              (KStr ''description'', PStr ''router'')] (KStr ''agent_id'') = Some (PStr ''A1'')
   \<and> map_of [(KStr ''agent_id'', PStr ''A1''), (KStr ''agent_url'', PStr ''U2''),
              (KStr ''description'', PStr ''router'')] (KStr ''agent_url'') = Some (PStr ''U2'')
   \<and> (\<exists>body st'.
        register merge_state
          (PDict [(KStr ''agent_id'', PStr ''A1''), (KStr ''agent_url'', PStr ''U2''),
                  (KStr ''description'', PStr ''router'')]) ''t1'' = (Inr (body, 200), st')
      \<and> get_agent st' ''A1'' =
          Inr (PDict [(KStr ''agent_id'', PStr ''A1''),
                      (KStr ''agent_url'', PStr ''U2''),
                      (KStr ''api_url'', PNone),
                      (KStr ''alive'', PBool False),
                      (KStr ''assigned_to'', PNone),
                      (KStr ''last_update'', PStr ''t1''),
                      (KStr ''capabilities'', PList []),
                      (KStr ''tags'', PList []),
                      (KStr ''description'', PStr ''router'')], 200)
      \<and> get_agent st' ''B7'' = get_agent merge_state ''B7'')"
proof -
  let ?d = "[(KStr ''agent_id'', PStr ''A1''), (KStr ''agent_url'', PStr ''U2''),
             (KStr ''description'', PStr ''router'')]"
  have h: "wf_cache merge_state" "agent_present merge_state ''A1''"
    "map_of ?d (KStr ''agent_id'') = Some (PStr ''A1'')"
    "map_of ?d (KStr ''agent_url'') = Some (PStr ''U2'')"
    by (simp_all add: wf_cache_def merge_state_def initial_state_def agent_present_def
          dict_has_def)
  have g: "dict_get ?d (KStr ''api_url'') PNone = PNone"
    "dict_get ?d (KStr ''description'') (PStr []) = PStr ''router''"
    by (simp_all add: dict_get_def)
  have n: "''B7'' \<noteq> ''A1''" by simp
  from h have c: "wf_cache merge_state \<and> agent_present merge_state ''A1''
     \<and> map_of ?d (KStr ''agent_id'') = Some (PStr ''A1'')
     \<and> map_of ?d (KStr ''agent_url'') = Some (PStr ''U2'')"
    by (intro conjI)
  from register_again_replaces_record[of merge_state "''A1''" ?d "PStr ''U2''" "''t1''",
         THEN mp, OF c]
  obtain body st' where
    r: "register merge_state (PDict ?d) ''t1'' = (Inr (body, 200), st')"
    and v: "get_agent st' ''A1'' =
          Inr (PDict [(KStr ''agent_id'', PStr ''A1''),
                      (KStr ''agent_url'', PStr ''U2''),
                      (KStr ''api_url'', PNone),
                      (KStr ''alive'', PBool False),
                      (KStr ''assigned_to'', PNone),
                      (KStr ''last_update'', PStr ''t1''),
                      (KStr ''capabilities'', PList []),
                      (KStr ''tags'', PList []),
                      (KStr ''description'', PStr ''router'')], 200)"
    and fr: "\<forall>other. other \<noteq> ''A1'' \<longrightarrow> get_agent st' other = get_agent merge_state other"
    unfolding g by (elim exE conjE)
  from fr n have o: "get_agent st' ''B7'' = get_agent merge_state ''B7''"
    by (elim allE impE)
  have e: "\<exists>body st'.
        register merge_state (PDict ?d) ''t1'' = (Inr (body, 200), st')
      \<and> get_agent st' ''A1'' =
          Inr (PDict [(KStr ''agent_id'', PStr ''A1''),
                      (KStr ''agent_url'', PStr ''U2''),
                      (KStr ''api_url'', PNone),
                      (KStr ''alive'', PBool False),
                      (KStr ''assigned_to'', PNone),
                      (KStr ''last_update'', PStr ''t1''),
                      (KStr ''capabilities'', PList []),
                      (KStr ''tags'', PList []),
                      (KStr ''description'', PStr ''router'')], 200)
      \<and> get_agent st' ''B7'' = get_agent merge_state ''B7''"
    using r v o by (intro exI[of _ body] exI[of _ st'] conjI)
  from h e show ?thesis by (intro conjI)
qed

section \<open>Deletion and the store\<close>

text \<open>
  C8. When \<open>delete_agent\<close> succeeds with the store available, the store no longer holds
  the deleted agent's document nor the documents of the aliases that pointed at it.
  The code does otherwise. After the removal from the cache, lines 220 and 221 call
  \<open>save_registry\<close> and \<open>save_client_registry\<close>, which upsert a document for every entry
  still in the cache and delete nothing: whenever \<open>delete_agent\<close> succeeds, every
  document of the agents collection whose \<open>agent_id\<close> is the deleted id is still in the
  collection, and so is every document of the clients collection whose \<open>client_name\<close> was
  mapped to the deleted id.
\<close>

theorem delete_leaves_store_documents:
  "delete_agent st aid = (Inr (body, 200), st') \<longrightarrow>
     (\<forall>col doc. agent_registry_col st = Some col \<and> doc \<in> set col
          \<and> map_of doc ''agent_id'' = Some (PStr aid) \<longrightarrow>
        (\<exists>col'. agent_registry_col st' = Some col' \<and> doc \<in> set col'))
   \<and> (\<forall>col doc name. client_registry_col st = Some col \<and> doc \<in> set col
          \<and> (name, PStr aid) \<in> set (agent_map_of st)
          \<and> map_of doc ''client_name'' = Some (key_val name) \<longrightarrow>
        (\<exists>col'. client_registry_col st' = Some col' \<and> doc \<in> set col'))"
proof (intro impI conjI allI)
  fix col doc
  assume del: "delete_agent st aid = (Inr (body, 200), st')"
    and h: "agent_registry_col st = Some col \<and> doc \<in> set col
          \<and> map_of doc ''agent_id'' = Some (PStr aid)"
  from delete_agent_success_form[OF del] obtain reg2 cr where
    st': "st' = save_client_registry
                  (save_registry (st\<lparr>registry := reg2, client_registry := cr\<rparr>))"
    and a: "\<not> dict_has reg2 (KStr aid)" by blast
  let ?s = "st\<lparr>registry := reg2, client_registry := cr\<rparr>"
  have "\<exists>col'. agent_registry_col (save_registry ?s) = Some col' \<and> doc \<in> set col'"
    by (rule save_registry_keeps[where k = "KStr aid" and col = col]) (use h a in simp_all)
  then show "\<exists>col'. agent_registry_col st' = Some col' \<and> doc \<in> set col'"
    by (simp add: st')
next
  fix col doc name
  assume del: "delete_agent st aid = (Inr (body, 200), st')"
    and h: "client_registry_col st = Some col \<and> doc \<in> set col
          \<and> (name, PStr aid) \<in> set (agent_map_of st)
          \<and> map_of doc ''client_name'' = Some (key_val name)"
  from delete_agent_success_form[OF del] obtain reg2 cr where
    st': "st' = save_client_registry
                  (save_registry (st\<lparr>registry := reg2, client_registry := cr\<rparr>))"
    and b: "\<forall>name. (name, PStr aid) \<in> set (agent_map_of st) \<longrightarrow> \<not> dict_has cr name"
    by blast
  let ?s = "save_registry (st\<lparr>registry := reg2, client_registry := cr\<rparr>)"
  have "\<exists>col'. client_registry_col (save_client_registry ?s) = Some col' \<and> doc \<in> set col'"
    by (rule save_client_registry_keeps[where k = name and col = col]) (use h b in simp_all)
  then show "\<exists>col'. client_registry_col st' = Some col' \<and> doc \<in> set col'"
    by (simp add: st')
qed

lemma store_state_saved:
  "save_client_registry
     (save_registry (store_state\<lparr>agent_registry_col := Some [], client_registry_col := Some []\<rparr>))
   = store_state"
  by (simp add: store_state_def cascade_state_def alias_state_def initial_state_def
        save_registry_def save_client_registry_def dict_get_def bindE_def set_fields_def
        mongo_match_def)

lemma delete_store_state:
  "delete_agent store_state ''A1'' =
     (Inr (PDict [(KStr ''status'', PStr ''deleted''), (KStr ''agent_id'', PStr ''A1'')], 200),
      store_state
        \<lparr>registry := [(k_agent_status, PDict [])],
         client_registry :=
           [(k_agent_map, PDict [(KStr ''C2'', PStr ''B7'')]), (KStr ''C2'', PStr ''X'')]\<rparr>)"
  by (simp add: delete_agent_def store_state_def cascade_state_def alias_state_def
        initial_state_def save_registry_def save_client_registry_def dict_has_def
        dict_get_def bindE_def AList.delete_eq mongo_match_def set_fields_def)

theorem delete_leaves_store_documents_witness:
  "agent_registry_col store_state =
     Some [[(''agent_id'', PStr ''A1''), (''agent_url'', PStr ''U''),
            (''alive'', PBool False), (''assigned_to'', PNone),
            (''api_url'', PStr ''W''), (''description'', PStr ''planner''),
            (''last_update'', PStr ''t0'')]]
   \<and> (KStr ''C1'', PStr ''A1'') \<in> set (agent_map_of store_state)
   \<and> (\<exists>body st'.
         delete_agent store_state ''A1'' = (Inr (body, 200), st')
       \<and> \<not> dict_has (registry st') (KStr ''A1'')
       \<and> \<not> dict_has (client_registry st') (KStr ''C1'')
       \<and> (\<exists>col'. agent_registry_col st' = Some col'
              \<and> [(''agent_id'', PStr ''A1''), (''agent_url'', PStr ''U''),
                  (''alive'', PBool False), (''assigned_to'', PNone),
                  (''api_url'', PStr ''W''), (''description'', PStr ''planner''),
                  (''last_update'', PStr ''t0'')] \<in> set col')
       \<and> (\<exists>col'. client_registry_col st' = Some col'
              \<and> [(''client_name'', PStr ''C1''), (''api_url'', PStr ''V''),
                  (''agent_id'', PStr ''A1'')] \<in> set col'))"
proof -
  let ?a = "[(''agent_id'', PStr ''A1''), (''agent_url'', PStr ''U''),
             (''alive'', PBool False), (''assigned_to'', PNone),
             (''api_url'', PStr ''W''), (''description'', PStr ''planner''),
             (''last_update'', PStr ''t0'')]"
  let ?c = "[(''client_name'', PStr ''C1''), (''api_url'', PStr ''V''),
             (''agent_id'', PStr ''A1'')]"
  let ?c2 = "[(''client_name'', PStr ''C2''), (''api_url'', PStr ''X''),
              (''agent_id'', PStr ''B7'')]"
  let ?st' = "store_state
        \<lparr>registry := [(k_agent_status, PDict [])],
         client_registry :=
           [(k_agent_map, PDict [(KStr ''C2'', PStr ''B7'')]), (KStr ''C2'', PStr ''X'')]\<rparr>"
  have ac: "agent_registry_col store_state = Some [?a]"
    and cc: "client_registry_col store_state = Some [?c, ?c2]"
    and am: "(KStr ''C1'', PStr ''A1'') \<in> set (agent_map_of store_state)"
    by (simp_all add: store_state_def cascade_state_def alias_state_def initial_state_def
          agent_map_of_def agent_map_in_def)
  have gone: "\<not> dict_has (registry ?st') (KStr ''A1'')"
    "\<not> dict_has (client_registry ?st') (KStr ''C1'')"
    by (simp_all add: dict_has_def)
  note t = delete_leaves_store_documents[THEN mp, OF delete_store_state]
  from t have "\<exists>col'. agent_registry_col ?st' = Some col' \<and> ?a \<in> set col'"
    using ac by (elim conjE allE[of _ "[?a]"] allE[of _ ?a]) simp
  moreover from t have "\<exists>col'. client_registry_col ?st' = Some col' \<and> ?c \<in> set col'"
    using cc am
    by (elim conjE allE[of _ "[?c, ?c2]"] allE[of _ ?c] allE[of _ "KStr ''C1''"]) simp
  ultimately show ?thesis using ac am gone delete_store_state by blast
qed

section \<open>The reserved name\<close>

text \<open>
  C9. No operation makes \<open>agent_status\<close> an agent id, and the status sub-map under that
  key is never replaced by agent data. \<open>register\<close> has no guard for the name, unlike
  \<open>get_agent\<close>, \<open>delete_agent\<close>, \<open>update_agent_status\<close> and \<open>lookup\<close>: with
  \<open>agent_id = 'agent_status'\<close> line 265 replaces the status sub-map by the request's URL,
  line 270 then raises \<open>TypeError\<close>, and afterwards \<open>lookup\<close> of a registered agent
  raises \<open>AttributeError\<close>; when the request's \<open>agent_url\<close> is a JSON object the
  registration even succeeds.
\<close>

theorem register_overwrites_status_map:
  "register merge_state
     (PDict [(KStr ''agent_id'', PStr ''agent_status''), (KStr ''agent_url'', PStr ''http://x'')])
     ''t1''
   = (Inl TypeError,
      merge_state\<lparr>registry := [(k_agent_status, PStr ''http://x''), (KStr ''A1'', PStr ''U'')]\<rparr>)
   \<and> lookup
       (merge_state\<lparr>registry := [(k_agent_status, PStr ''http://x''), (KStr ''A1'', PStr ''U'')]\<rparr>)
       ''A1'' = Inl AttributeError
   \<and> register initial_state
       (PDict [(KStr ''agent_id'', PStr ''agent_status''), (KStr ''agent_url'', PDict [])]) ''t1''
     = (Inr (PDict [(KStr ''status'', PStr ''success''),
                    (KStr ''message'', PStr ''Agent agent_status registered'')], 200),
        initial_state
          \<lparr>registry :=
             [(k_agent_status,
               PDict [(k_agent_status,
                       PDict [(KStr ''alive'', PBool False),
                              (KStr ''assigned_to'', PNone),
                              (KStr ''api_url'', PNone),
                              (KStr ''description'', PStr []),
                              (KStr ''last_update'', PStr ''t1'')])])]\<rparr>)"
  by (simp add: register_def missing_fields_def merge_state_def initial_state_def
        save_registry_def lookup_def
        dict_has_def dict_index_def dict_get_def bindE_def)

section \<open>The fields of a lookup result\<close>

text \<open>
  C10. A successful \<open>lookup\<close> returns exactly the four fields \<open>agent_id\<close>,
  \<open>agent_url\<close>, \<open>api_url\<close> and \<open>description\<close>; the fields \<open>alive\<close>, \<open>assigned_to\<close>,
  \<open>last_update\<close>, \<open>capabilities\<close> and \<open>tags\<close> appear only in the nine-field view that
  \<open>get_agent\<close> returns.
\<close>

theorem lookup_view_fields:
  "(lookup st name = Inr (body, 200) \<longrightarrow>
      dict_keys body =
        [KStr ''agent_id'', KStr ''agent_url'', KStr ''api_url'', KStr ''description''])
   \<and> (get_agent st name = Inr (full, 200) \<longrightarrow>
      dict_keys full =
        [KStr ''agent_id'', KStr ''agent_url'', KStr ''api_url'', KStr ''alive'',
         KStr ''assigned_to'', KStr ''last_update'', KStr ''capabilities'', KStr ''tags'',
         KStr ''description''])"
proof -
  have "dict_keys body =
        [KStr ''agent_id'', KStr ''agent_url'', KStr ''api_url'', KStr ''description'']"
    if "lookup st name = Inr (body, 200)"
    using that
    by (auto simp: lookup_def bindE_def dict_keys_def split: if_splits sum.splits)
  moreover have "dict_keys full =
        [KStr ''agent_id'', KStr ''agent_url'', KStr ''api_url'', KStr ''alive'',
         KStr ''assigned_to'', KStr ''last_update'', KStr ''capabilities'', KStr ''tags'',
         KStr ''description'']"
    if "get_agent st name = Inr (full, 200)"
    using that
    by (auto simp: get_agent_def build_agent_payload_def not_found_def bindE_def dict_keys_def
          split: if_splits sum.splits)
  ultimately show ?thesis by blast
qed


theorem lookup_view_fields_witness:
  "lookup alias_state ''A1'' =
     Inr (PDict [(KStr ''agent_id'', PStr ''A1''), (KStr ''agent_url'', PStr ''U''),
                 (KStr ''api_url'', PStr ''W''), (KStr ''description'', PStr ''planner'')], 200)
   \<and> dict_keys (PDict [(KStr ''agent_id'', PStr ''A1''), (KStr ''agent_url'', PStr ''U''),
                 (KStr ''api_url'', PStr ''W''), (KStr ''description'', PStr ''planner'')]) =
        [KStr ''agent_id'', KStr ''agent_url'', KStr ''api_url'', KStr ''description'']
   \<and> (\<exists>full. get_agent alias_state ''A1'' = Inr (full, 200)
        \<and> dict_keys full =
        [KStr ''agent_id'', KStr ''agent_url'', KStr ''api_url'', KStr ''alive'',
         KStr ''assigned_to'', KStr ''last_update'', KStr ''capabilities'', KStr ''tags'',
         KStr ''description''])"
proof -
  have l: "lookup alias_state ''A1'' =
     Inr (PDict [(KStr ''agent_id'', PStr ''A1''), (KStr ''agent_url'', PStr ''U''),
                 (KStr ''api_url'', PStr ''W''), (KStr ''description'', PStr ''planner'')], 200)"
    by (simp add: lookup_def alias_state_def initial_state_def dict_has_def dict_index_def
          dict_get_def bindE_def)
  have "\<exists>full. get_agent alias_state ''A1'' = Inr (full, 200)"
    by (simp add: get_agent_def build_agent_payload_def alias_state_def initial_state_def
          dict_has_def dict_get_def bindE_def)
  then obtain full where g: "get_agent alias_state ''A1'' = Inr (full, 200)" by blast
  from lookup_view_fields[of alias_state "''A1''" _ full] l g show ?thesis by blast
qed

end
